theory Spec2Isabelle
  imports Main "HOL-Library.Word"
begin

section \<open>Shadowsocks outbound client: the model of \<^verbatim>\<open>proxy/shadowsocks/client.go\<close>\<close>

text \<open>
  The file defines \<^verbatim>\<open>Client\<close>, \<^verbatim>\<open>NewClient\<close>, \<^verbatim>\<open>Client.Dispatch\<close> and
  \<^verbatim>\<open>ClientFactory.StreamCapability\<close>. \<^verbatim>\<open>Dispatch\<close> calls into packages that are
  not part of the file (the dialer, the codec, the pipes, the retry strategy, the server
  picker). Each such call is an event of a trace; what the call returns is read from an
  environment record, so that a theorem quantified over the environment holds for every
  behaviour of the collaborators. Go errors are strings (the text of \<^verbatim>\<open>err.Error()\<close>), a
  \<^verbatim>\<open>nil\<close> error is \<open>None\<close>, and a run-time panic is a result of its own.
\<close>

subsection \<open>Values\<close>

text \<open>
  Modelled from the spec: the type \<^verbatim>\<open>v2net.Network\<close> is declared outside the file. The
  data model names three kinds (stream, datagram, raw-stream); the file names
  \<^verbatim>\<open>Network_TCP\<close> and \<^verbatim>\<open>Network_RawTCP\<close>.
\<close>

datatype Network = Network_TCP | Network_UDP | Network_RawTCP

record Destination =
  Network :: Network
  Address :: string
  Port :: "16 word"

text \<open>
  Modelled from the spec: the authentication mode of an account is one of disabled,
  enabled, auto (\<^verbatim>\<open>Account_Auto\<close> and \<^verbatim>\<open>Account_Enabled\<close> are the names the file uses).
\<close>

datatype Account_OneTimeAuth = Account_Auto | Account_Disabled | Account_Enabled

record ShadowsocksAccount =
  OneTimeAuth :: Account_OneTimeAuth

text \<open>
  The dynamic type of the value behind the \<^verbatim>\<open>protocol.Account\<close> interface: a
  \<^verbatim>\<open>*ShadowsocksAccount\<close>, or anything else.
\<close>

datatype Account = ShadowsocksAccountPtr ShadowsocksAccount | OtherAccount

text \<open>
  A user carries what \<^verbatim>\<open>GetTypedAccount\<close> returns for it: the error, or the account.
\<close>

record User =
  Email :: string
  typedAccount :: "string + Account"

definition GetTypedAccount :: "User \<Rightarrow> string + Account" where
  "GetTypedAccount user = typedAccount user"

record ServerSpec =
  dest :: Destination
  users :: "User list"

record OutboundHandlerMeta =
  Address :: string
  DialerOptions :: nat

datatype RequestCommand = RequestCommandTCP | RequestCommandUDP

record RequestHeader =
  Version :: "8 word"
  User :: "User option"
  Command :: RequestCommand
  Option :: "8 word"
  Address :: string
  Port :: "16 word"

text \<open>The body writer that \<^verbatim>\<open>WriteTCPRequest\<close> hands back: \<^verbatim>\<open>nil\<close>, or a writer.\<close>

datatype BodyWriter = NilWriter | Writer nat

subsection \<open>Events\<close>

datatype event =
    EvPickServer
  | EvDial string Destination nat
  | EvDelay nat
  | EvLogInfo Destination Destination
  | EvSetReusable nat bool
  | EvPickUser
  | EvGetTypedAccount
  | EvNewBufferedWriter nat
  | EvWriteTCPRequest RequestHeader
  | EvBodyWriterWrite
  | EvMutexLock
  | EvGo
  | EvSetCached bool
  | EvPipeInput
  | EvNewTimeOutReader nat nat
  | EvUDPWrite RequestHeader nat
  | EvReadTCPResponse User nat
  | EvLogWarning string
  | EvPipeOutput
  | EvMutexUnlock
  | EvBodyWriterRelease BodyWriter
  | EvBufferedWriterRelease
  | EvOutputClose
  | EvInputRelease
  | EvPayloadRelease

subsection \<open>The environment\<close>

text \<open>
  \<open>Dial n src d opts\<close> is what the \<open>n\<close>-th call of \<^verbatim>\<open>internet.Dial\<close> returns (an error,
  or the connection); \<open>PickUser\<close> is the choice of \<^verbatim>\<open>ServerSpec.PickUser\<close>;
  \<open>WriteTCPRequest\<close> returns the pair of Go results (body writer, error);
  \<open>ReleaseReturns w\<close> says whether \<^verbatim>\<open>Release()\<close> called on the body writer \<open>w\<close>
  returns (it panics otherwise); the remaining fields are the errors of the two payload
  writes and of \<^verbatim>\<open>ReadTCPResponse\<close>. \<open>Version\<close> and \<open>RequestOptionOneTimeAuth\<close>
  are the package constants of those names, declared outside the file.
\<close>

record env =
  Version :: "8 word"
  RequestOptionOneTimeAuth :: "8 word"
  Dial :: "nat \<Rightarrow> string \<Rightarrow> Destination \<Rightarrow> nat \<Rightarrow> string + nat"
  PickUser :: "ServerSpec \<Rightarrow> User"
  WriteTCPRequest :: "RequestHeader \<Rightarrow> BodyWriter \<times> string option"
  ReleaseReturns :: "BodyWriter \<Rightarrow> bool"
  BodyWriterWrite :: "string option"
  UDPWriterWrite :: "string option"
  ReadTCPResponse :: "string option"

subsection \<open>The server picker\<close>

record RoundRobinServerPicker =
  serverlist :: "ServerSpec list"
  nextIndex :: nat

text \<open>
  Modelled from the spec: \<^verbatim>\<open>RoundRobinServerPicker.PickServer\<close> is declared outside the
  file. It visits the servers in cyclic order with wraparound and advances the rotation
  state. On an empty pool there is no server to return (\<^verbatim>\<open>nil\<close>).
\<close>

definition PickServer :: "RoundRobinServerPicker \<Rightarrow> ServerSpec option \<times> RoundRobinServerPicker" where
  "PickServer p =
     (case serverlist p of
        [] \<Rightarrow> (None, p)
      | _ # _ \<Rightarrow>
          (Some (serverlist p ! (nextIndex p mod length (serverlist p))),
           p\<lparr>nextIndex := Suc (nextIndex p) mod length (serverlist p)\<rparr>))"

record Client =
  serverPicker :: RoundRobinServerPicker
  meta :: OutboundHandlerMeta

text \<open>\<^verbatim>\<open>NewClient\<close>: the servers of the configuration, in order, behind a fresh picker.\<close>

definition NewClient :: "ServerSpec list \<Rightarrow> OutboundHandlerMeta \<Rightarrow> Client" where
  "NewClient config_Server m =
     \<lparr>serverPicker = \<lparr>serverlist = config_Server, nextIndex = 0\<rparr>, meta = m\<rparr>"

definition StreamCapability :: "Network list" where
  "StreamCapability = [Network_TCP, Network_RawTCP]"

subsection \<open>The retry strategy\<close>

datatype attempt_result = AttemptOk | AttemptErr string | AttemptPanic

text \<open>
  Modelled from the spec: \<^verbatim>\<open>retry.Timed(attempts, delay).On(method)\<close> is declared outside
  the file. It calls the method up to \<open>attempts\<close> times, \<open>delay\<close> milliseconds apart,
  stops at the first call that returns no error, and after the last failed attempt
  reports the final underlying error. A panic of the method is not caught. (With no
  attempt allowed there is no underlying error to report.)
\<close>

fun retry_Timed_On ::
  "nat \<Rightarrow> nat \<Rightarrow> ('s \<Rightarrow> attempt_result \<times> event list \<times> 's) \<Rightarrow> 's \<Rightarrow> attempt_result \<times> event list \<times> 's" where
  "retry_Timed_On 0 delay method s = (AttemptErr [], [], s)"
| "retry_Timed_On (Suc n) delay method s =
     (case method s of (r, tr, s') \<Rightarrow>
        (case r of
           AttemptOk \<Rightarrow> (AttemptOk, tr, s')
         | AttemptPanic \<Rightarrow> (AttemptPanic, tr, s')
         | AttemptErr e \<Rightarrow>
             (if n = 0 then (AttemptErr e, tr, s')
              else (case retry_Timed_On n delay method s' of
                      (r', tr', s'') \<Rightarrow> (r', tr @ EvDelay delay # tr', s'')))))"

subsection \<open>The dialing phase (lines 44 to 58)\<close>

text \<open>
  The variables the closure reads and writes: the picker, the number of dials made so
  far, and the captured \<^verbatim>\<open>server\<close> and \<^verbatim>\<open>conn\<close>.
\<close>

record dial_vars =
  picker :: RoundRobinServerPicker
  dials :: nat
  server :: "ServerSpec option"
  conn :: "nat option"

text \<open>
  One call of the closure. \<^verbatim>\<open>server.Destination()\<close> on a \<^verbatim>\<open>nil\<close> server is a nil
  dereference, hence a panic.
\<close>

definition dial_attempt ::
  "env \<Rightarrow> OutboundHandlerMeta \<Rightarrow> Network \<Rightarrow> dial_vars \<Rightarrow> attempt_result \<times> event list \<times> dial_vars" where
  "dial_attempt e m network v =
     (case PickServer (picker v) of (picked, p') \<Rightarrow>
        (case picked of
           None \<Rightarrow> (AttemptPanic, [EvPickServer], v\<lparr>picker := p', server := None\<rparr>)
         | Some srv \<Rightarrow>
             (let d = (dest srv)\<lparr>Network := network\<rparr>;
                  ev = [EvPickServer, EvDial (OutboundHandlerMeta.Address m) d (DialerOptions m)]
              in case Dial e (dials v) (OutboundHandlerMeta.Address m) d (DialerOptions m) of
                   Inl err \<Rightarrow>
                     (AttemptErr err, ev, v\<lparr>picker := p', dials := Suc (dials v), server := Some srv\<rparr>)
                 | Inr rawConn \<Rightarrow>
                     (AttemptOk, ev,
                      v\<lparr>picker := p', dials := Suc (dials v), server := Some srv, conn := Some rawConn\<rparr>))))"

definition dial_phase ::
  "env \<Rightarrow> Client \<Rightarrow> Network \<Rightarrow> attempt_result \<times> event list \<times> dial_vars" where
  "dial_phase e c network =
     retry_Timed_On 5 100 (dial_attempt e (meta c) network)
       \<lparr>picker = serverPicker c, dials = 0, server = None, conn = None\<rparr>"

subsection \<open>Deferred calls\<close>

datatype deferred =
    DeferPayloadRelease
  | DeferInputRelease
  | DeferOutputClose
  | DeferBufferedWriterRelease
  | DeferBodyWriterRelease BodyWriter

fun deferred_event :: "deferred \<Rightarrow> event" where
  "deferred_event DeferPayloadRelease = EvPayloadRelease"
| "deferred_event DeferInputRelease = EvInputRelease"
| "deferred_event DeferOutputClose = EvOutputClose"
| "deferred_event DeferBufferedWriterRelease = EvBufferedWriterRelease"
| "deferred_event (DeferBodyWriterRelease w) = EvBodyWriterRelease w"

fun deferred_returns :: "env \<Rightarrow> deferred \<Rightarrow> bool" where
  "deferred_returns e (DeferBodyWriterRelease w) = ReleaseReturns e w"
| "deferred_returns e d = True"

datatype result = Returned "string option" | Panicked

text \<open>
  The stack of deferred calls runs when the function leaves, the call registered last
  first; each call runs whether the function returns or panics, and a deferred call that
  panics turns the outcome into a panic while the rest of the stack still runs. A
  \<^verbatim>\<open>Release\<close> that does not return is taken to panic when the deferred call runs;
  were it to panic when the \<^verbatim>\<open>defer\<close> statement of line 94 is executed (a \<^verbatim>\<open>nil\<close>
  interface value), the run after a failed \<^verbatim>\<open>WriteTCPRequest\<close> would be the same, no
  call lying between line 94 and the return of line 97.
\<close>

fun run_deferred :: "env \<Rightarrow> deferred list \<Rightarrow> result \<Rightarrow> result \<times> event list" where
  "run_deferred e [] r = (r, [])"
| "run_deferred e (d # ds) r =
     (case run_deferred e ds (if deferred_returns e d then r else Panicked) of
        (r', tr) \<Rightarrow> (r', deferred_event d # tr))"

subsection \<open>Building the request (lines 66 to 87)\<close>

definition new_request :: "env \<Rightarrow> Destination \<Rightarrow> RequestHeader" where
  "new_request e destination =
     \<lparr>RequestHeader.Version = env.Version e,
      RequestHeader.User = None,
      RequestHeader.Command =
        (if Network destination = Network_TCP then RequestCommandTCP else RequestCommandUDP),
      RequestHeader.Option = 0,
      RequestHeader.Address = Destination.Address destination,
      RequestHeader.Port = Destination.Port destination\<rparr>"

definition set_user_option :: "env \<Rightarrow> User \<Rightarrow> ShadowsocksAccount \<Rightarrow> RequestHeader \<Rightarrow> RequestHeader" where
  "set_user_option e user account request =
     (let request = request\<lparr>User := Some user\<rparr>
      in if OneTimeAuth account = Account_Auto \<or> OneTimeAuth account = Account_Enabled
         then request\<lparr>Option := or (Option request) (RequestOptionOneTimeAuth e)\<rparr>
         else request)"

subsection \<open>The two relay modes (lines 89 to 151)\<close>

text \<open>
  What a part of the body hands on: the outcome so far (\<open>None\<close> while the function is
  still running), the events of the invoking goroutine, the events of the goroutine it
  spawned (if any), and the deferred calls it registered, the last one first.
\<close>

type_synonym part = "result option \<times> event list \<times> event list option \<times> deferred list"

definition tcp_response :: "env \<Rightarrow> User \<Rightarrow> nat \<Rightarrow> event list" where
  "tcp_response e user c =
     (case ReadTCPResponse e of
        Some err \<Rightarrow>
          [EvReadTCPResponse user c,
           EvLogWarning (''Shadowsocks|Client: Failed to read response: '' @ err),
           EvMutexUnlock]
      | None \<Rightarrow> [EvReadTCPResponse user c, EvPipeOutput, EvMutexUnlock])"

definition Dispatch_TCP :: "env \<Rightarrow> RequestHeader \<Rightarrow> User \<Rightarrow> nat \<Rightarrow> part" where
  "Dispatch_TCP e request user c =
     (case WriteTCPRequest e request of (bodyWriter, err) \<Rightarrow>
        (let ev = [EvNewBufferedWriter c, EvWriteTCPRequest request];
             ds = [DeferBodyWriterRelease bodyWriter, DeferBufferedWriterRelease]
         in case err of
              Some msg \<Rightarrow>
                (Some (Returned (Some (''Shadowsock|Client: Failed to write request: '' @ msg))),
                 ev, None, ds)
            | None \<Rightarrow>
                (case BodyWriterWrite e of
                   Some msg \<Rightarrow>
                     (Some (Returned (Some (''Shadowsocks|Client: Failed to write payload: '' @ msg))),
                      ev @ [EvBodyWriterWrite], None, ds)
                 | None \<Rightarrow>
                     (None,
                      ev @ [EvBodyWriterWrite, EvMutexLock, EvGo, EvSetCached False, EvPipeInput,
                            EvMutexLock],
                      Some (tcp_response e user c), ds))))"

definition udp_response :: "event list" where
  "udp_response = [EvPipeOutput, EvMutexUnlock]"

definition Dispatch_UDP :: "env \<Rightarrow> RequestHeader \<Rightarrow> nat \<Rightarrow> part" where
  "Dispatch_UDP e request c =
     (let ev = [EvNewTimeOutReader 16 c, EvMutexLock, EvGo, EvUDPWrite request c]
      in case UDPWriterWrite e of
           Some msg \<Rightarrow>
             (Some (Returned (Some (''Shadowsocks|Client: Failed to write payload: '' @ msg))),
              ev, Some udp_response, [])
         | None \<Rightarrow> (None, ev @ [EvPipeInput, EvMutexLock], Some udp_response, []))"

text \<open>
  The two \<^verbatim>\<open>if\<close> blocks on \<^verbatim>\<open>request.Command\<close>, one after the other; the second is
  reached only when the first did not return.
\<close>

definition relay :: "env \<Rightarrow> RequestHeader \<Rightarrow> User \<Rightarrow> nat \<Rightarrow> part" where
  "relay e request user c =
     (case (if Command request = RequestCommandTCP then Dispatch_TCP e request user c
            else (None, [], None, [])) of
        (r1, ev1, bg1, ds1) \<Rightarrow>
          (case r1 of
             Some r \<Rightarrow> (Some r, ev1, bg1, ds1)
           | None \<Rightarrow>
               (case (if Command request = RequestCommandUDP then Dispatch_UDP e request c
                      else (None, [], None, [])) of
                  (r2, ev2, bg2, ds2) \<Rightarrow>
                    (r2, ev1 @ ev2, (case bg2 of None \<Rightarrow> bg1 | Some b \<Rightarrow> Some b), ds2 @ ds1))))"

subsection \<open>Dispatch\<close>

record dispatch_out =
  result :: result
  fg :: "event list"
  bg :: "event list option"
  request :: "RequestHeader option"
  chosen :: "(ServerSpec \<times> nat) option"
  picker_after :: RoundRobinServerPicker

text \<open>
  Lines 62 to 153, once the dialing phase has left a server and a connection. The
  result holds the outcome, the events, the spawned goroutine's events, the deferred
  calls registered here and the value of the local \<^verbatim>\<open>request\<close>.
\<close>

definition after_dial ::
  "env \<Rightarrow> Destination \<Rightarrow> ServerSpec \<Rightarrow> nat \<Rightarrow>
   result \<times> event list \<times> event list option \<times> deferred list \<times> RequestHeader" where
  "after_dial e destination srv c =
     (let ev = [EvLogInfo destination (dest srv), EvSetReusable c False, EvPickUser, EvGetTypedAccount];
          request = new_request e destination;
          user = PickUser e srv
      in case GetTypedAccount user of
           Inl err \<Rightarrow>
             (Returned (Some (''Shadowsocks|Client: Failed to get a valid user account: '' @ err)),
              ev, None, [], request)
         | Inr rawAccount \<Rightarrow>
             (case rawAccount of
                OtherAccount \<Rightarrow> (Panicked, ev, None, [], request)
              | ShadowsocksAccountPtr account \<Rightarrow>
                  (let request = set_user_option e user account request
                   in case relay e request user c of
                        (r, ev', b, ds) \<Rightarrow>
                          ((case r of Some r' \<Rightarrow> r' | None \<Rightarrow> Returned None),
                           ev @ ev', b, ds, request))))"

definition Dispatch :: "env \<Rightarrow> Client \<Rightarrow> Destination \<Rightarrow> dispatch_out" where
  "Dispatch e c destination =
     (let top = [DeferOutputClose, DeferInputRelease, DeferPayloadRelease];
          network = Network destination
      in case dial_phase e c network of (a, ev, v) \<Rightarrow>
           (case a of
              AttemptErr err \<Rightarrow>
                (case run_deferred e top
                        (Returned (Some (''Shadowsocks|Client: Failed to find an available destination:'' @ err))) of
                   (r, tr) \<Rightarrow>
                     \<lparr>result = r, fg = ev @ tr, bg = None, request = None, chosen = None,
                      picker_after = picker v\<rparr>)
            | AttemptPanic \<Rightarrow>
                (case run_deferred e top Panicked of
                   (r, tr) \<Rightarrow>
                     \<lparr>result = r, fg = ev @ tr, bg = None, request = None, chosen = None,
                      picker_after = picker v\<rparr>)
            | AttemptOk \<Rightarrow>
                (case (server v, conn v) of
                   (Some srv, Some cn) \<Rightarrow>
                     (case after_dial e destination srv cn of
                        (r0, ev', b, ds, req) \<Rightarrow>
                          (case run_deferred e (ds @ top) r0 of
                             (r, tr) \<Rightarrow>
                               \<lparr>result = r, fg = ev @ ev' @ tr, bg = b, request = Some req,
                                chosen = Some (srv, cn), picker_after = picker v\<rparr>))
                 | _ \<Rightarrow>
                     (case run_deferred e top Panicked of
                        (r, tr) \<Rightarrow>
                          \<lparr>result = r, fg = ev @ tr, bg = None, request = None, chosen = None,
                           picker_after = picker v\<rparr>))))"

subsection \<open>Reading a run\<close>

text \<open>All events of a run: those of the invoking goroutine, then those of the spawned one.\<close>

definition all_events :: "dispatch_out \<Rightarrow> event list" where
  "all_events out = fg out @ (case bg out of None \<Rightarrow> [] | Some b \<Rightarrow> b)"

text \<open>The events of the dialing phase of a dispatch.\<close>

definition dialing_events :: "env \<Rightarrow> Client \<Rightarrow> Destination \<Rightarrow> event list" where
  "dialing_events e c destination = fst (snd (dial_phase e c (Network destination)))"

fun is_dial :: "event \<Rightarrow> bool" where
  "is_dial (EvDial a d opts) = True"
| "is_dial ev = False"

text \<open>The events of the dialing phase.\<close>

fun is_dialing :: "event \<Rightarrow> bool" where
  "is_dialing EvPickServer = True"
| "is_dialing (EvDial a d opts) = True"
| "is_dialing (EvDelay ms) = True"
| "is_dialing ev = False"

text \<open>The three calls deferred at the top of \<^verbatim>\<open>Dispatch\<close>.\<close>

fun is_top_cleanup :: "event \<Rightarrow> bool" where
  "is_top_cleanup EvPayloadRelease = True"
| "is_top_cleanup EvInputRelease = True"
| "is_top_cleanup EvOutputClose = True"
| "is_top_cleanup ev = False"

text \<open>The events between the dialing phase and the three top-level deferred calls.\<close>

definition is_inner :: "event \<Rightarrow> bool" where
  "is_inner ev = (\<not> is_top_cleanup ev \<and> \<not> is_dialing ev)"

definition inner_part :: "event list \<Rightarrow> deferred list \<Rightarrow> event list option \<Rightarrow> bool" where
  "inner_part ev ds b =
     (list_all is_inner ev \<and> list_all is_inner (map deferred_event ds)
      \<and> (case b of None \<Rightarrow> True | Some t \<Rightarrow> list_all is_inner t))"

text \<open>The events that put bytes on the connection.\<close>

fun is_write :: "event \<Rightarrow> bool" where
  "is_write (EvWriteTCPRequest h) = True"
| "is_write EvBodyWriterWrite = True"
| "is_write (EvUDPWrite h c) = True"
| "is_write EvPipeInput = True"
| "is_write ev = False"

text \<open>The deferred cleanup: payload release, Input release, Output close, buffered-writer release.\<close>

fun is_cleanup :: "event \<Rightarrow> bool" where
  "is_cleanup EvPayloadRelease = True"
| "is_cleanup EvInputRelease = True"
| "is_cleanup EvOutputClose = True"
| "is_cleanup EvBufferedWriterRelease = True"
| "is_cleanup ev = False"

text \<open>A flag is set in an option byte when all its bits are.\<close>

definition option_has :: "8 word \<Rightarrow> 8 word \<Rightarrow> bool" where
  "option_has opt flag = (and opt flag = flag)"

text \<open>
  The header and the first payload go out without error: in stream mode
  \<^verbatim>\<open>WriteTCPRequest\<close> and the write of the payload to the body writer return no error
  (and the body writer handed back is one whose \<^verbatim>\<open>Release\<close> returns); in datagram mode
  the write of the first packet returns no error.
\<close>

definition request_written :: "env \<Rightarrow> RequestHeader \<Rightarrow> bool" where
  "request_written e h =
     (case Command h of
        RequestCommandTCP \<Rightarrow>
          (case WriteTCPRequest e h of (w, err) \<Rightarrow> err = None \<and> ReleaseReturns e w)
          \<and> BodyWriterWrite e = None
      | RequestCommandUDP \<Rightarrow> UDPWriterWrite e = None)"

text \<open>
  The server that the pick at rotation index \<open>i\<close> yields, the destination dialled for
  it, and the events of that attempt.
\<close>

definition pick_at :: "ServerSpec list \<Rightarrow> nat \<Rightarrow> ServerSpec" where
  "pick_at sl i = sl ! (i mod length sl)"

definition target_at :: "ServerSpec list \<Rightarrow> Network \<Rightarrow> nat \<Rightarrow> Destination" where
  "target_at sl network i = (dest (pick_at sl i))\<lparr>Network := network\<rparr>"

definition attempt_events :: "OutboundHandlerMeta \<Rightarrow> ServerSpec list \<Rightarrow> Network \<Rightarrow> nat \<Rightarrow> event list" where
  "attempt_events m sl network i =
     [EvPickServer, EvDial (OutboundHandlerMeta.Address m) (target_at sl network i) (DialerOptions m)]"

text \<open>
  The events of \<open>k\<close> attempts each followed by the delay, and then one more attempt,
  starting at rotation index \<open>i\<close>.
\<close>

fun dial_events :: "OutboundHandlerMeta \<Rightarrow> ServerSpec list \<Rightarrow> Network \<Rightarrow> nat \<Rightarrow> nat \<Rightarrow> event list" where
  "dial_events m sl network i 0 = attempt_events m sl network i"
| "dial_events m sl network i (Suc k) =
     attempt_events m sl network i @ EvDelay 100 # dial_events m sl network (Suc i) k"

text \<open>The outcome of the \<open>j\<close>-th dial of a dispatch that starts at rotation index \<open>i\<close>.\<close>

definition dial_outcome :: "env \<Rightarrow> Client \<Rightarrow> Network \<Rightarrow> nat \<Rightarrow> string + nat" where
  "dial_outcome e c network j =
     Dial e j (OutboundHandlerMeta.Address (meta c))
       (target_at (serverlist (serverPicker c)) network (nextIndex (serverPicker c) + j))
       (DialerOptions (meta c))"

subsection \<open>Interleavings of the two goroutines\<close>

text \<open>
  A schedule names, step by step, the goroutine that moves. The mutex is the only
  synchronisation: \<^verbatim>\<open>Lock\<close> cannot step while the mutex is held, \<^verbatim>\<open>Unlock\<close> frees it,
  and the spawned goroutine cannot step before the \<^verbatim>\<open>go\<close> statement. \<open>interleave\<close>
  returns the global order of the events, or \<open>None\<close> when the schedule asks for a step
  that cannot be taken.
\<close>

datatype thread = Foreground | Background

fun interleave ::
  "bool \<Rightarrow> bool \<Rightarrow> event list \<Rightarrow> event list \<Rightarrow> thread list \<Rightarrow> (thread \<times> event) list option" where
  "interleave locked spawned fs bs [] = Some []"
| "interleave locked spawned fs bs (Foreground # ts) =
     (case fs of
        [] \<Rightarrow> None
      | f # fs' \<Rightarrow>
          if f = EvMutexLock \<and> locked then None
          else map_option (Cons (Foreground, f))
                 (interleave (f = EvMutexLock \<or> locked) (f = EvGo \<or> spawned) fs' bs ts))"
| "interleave locked spawned fs bs (Background # ts) =
     (case bs of
        [] \<Rightarrow> None
      | b # bs' \<Rightarrow>
          if spawned
          then map_option (Cons (Background, b))
                 (interleave (b \<noteq> EvMutexUnlock \<and> locked) spawned fs bs' ts)
          else None)"

text \<open>Some cleanup call of the foreground is followed by a step of the background.\<close>

fun cleanup_races :: "(thread \<times> event) list \<Rightarrow> bool" where
  "cleanup_races [] = False"
| "cleanup_races ((t, x) # xs) =
     ((t = Foreground \<and> is_cleanup x \<and> Background \<in> fst ` set xs) \<or> cleanup_races xs)"

text \<open>
  What the ordering rests on. \<open>before_lock fs\<close>: the invoking goroutine reaches a
  \<^verbatim>\<open>Lock\<close> before any cleanup call. \<open>before_spawn fs\<close>: it reaches a first \<^verbatim>\<open>Lock\<close>
  before any cleanup call and before the \<^verbatim>\<open>go\<close> statement, and after it a second
  \<^verbatim>\<open>Lock\<close> before any cleanup call. \<open>unlock_last bs\<close>: the spawned goroutine
  releases the mutex as its last step and at no other step. A run is \<open>guarded\<close> when
  no spawned goroutine is left to run, or these hold of what is left of the two
  goroutines.
\<close>

fun before_lock :: "event list \<Rightarrow> bool" where
  "before_lock [] = False"
| "before_lock (f # fs) = (f = EvMutexLock \<or> (\<not> is_cleanup f \<and> before_lock fs))"

fun before_spawn :: "event list \<Rightarrow> bool" where
  "before_spawn [] = False"
| "before_spawn (f # fs) =
     (if f = EvMutexLock then before_lock fs
      else \<not> is_cleanup f \<and> f \<noteq> EvGo \<and> before_spawn fs)"

fun unlock_last :: "event list \<Rightarrow> bool" where
  "unlock_last [] = False"
| "unlock_last [b] = (b = EvMutexUnlock)"
| "unlock_last (b # bs) = (b \<noteq> EvMutexUnlock \<and> unlock_last bs)"

definition guarded :: "bool \<Rightarrow> bool \<Rightarrow> event list \<Rightarrow> event list \<Rightarrow> bool" where
  "guarded locked spawned fs bs =
     (bs = [] \<or> (unlock_last bs \<and> (if locked then before_lock fs else \<not> spawned \<and> before_spawn fs)))"

subsection \<open>Example inputs\<close>

definition example_user :: "string + Account \<Rightarrow> User" where
  "example_user a = \<lparr>Email = ''user@relay'', typedAccount = a\<rparr>"

definition example_account :: "Account_OneTimeAuth \<Rightarrow> string + Account" where
  "example_account mode = Inr (ShadowsocksAccountPtr \<lparr>OneTimeAuth = mode\<rparr>)"

definition example_server :: "nat \<Rightarrow> ServerSpec" where
  "example_server n =
     \<lparr>dest = \<lparr>Network = Network_TCP, Destination.Address = ''relay'', Destination.Port = of_nat n\<rparr>,
      users = []\<rparr>"

definition example_meta :: OutboundHandlerMeta where
  "example_meta = \<lparr>OutboundHandlerMeta.Address = ''0.0.0.0'', DialerOptions = 0\<rparr>"

definition example_client :: Client where
  "example_client = NewClient [example_server 1, example_server 2, example_server 3] example_meta"

definition example_destination :: "Network \<Rightarrow> Destination" where
  "example_destination network =
     \<lparr>Network = network, Destination.Address = ''example.com'', Destination.Port = 443\<rparr>"

text \<open>The header a dispatch to the example destination builds for the example user.\<close>

definition example_request :: "RequestCommand \<Rightarrow> Account_OneTimeAuth \<Rightarrow> 8 word \<Rightarrow> RequestHeader" where
  "example_request cmd mode opt =
     \<lparr>RequestHeader.Version = 1,
      RequestHeader.User = Some (example_user (example_account mode)),
      RequestHeader.Command = cmd,
      RequestHeader.Option = opt,
      RequestHeader.Address = ''example.com'',
      RequestHeader.Port = 443\<rparr>"

text \<open>
  An environment in which the first \<open>k\<close> dials are refused and every later one connects,
  the user picked has the account \<open>a\<close>, and every collaborator call succeeds.
\<close>

definition example_env :: "nat \<Rightarrow> string + Account \<Rightarrow> env" where
  "example_env k a =
     \<lparr>env.Version = 1,
      RequestOptionOneTimeAuth = 101,
      Dial = (\<lambda>n src d opts. if n < k then Inl ''connection refused'' else Inr n),
      PickUser = (\<lambda>srv. example_user a),
      WriteTCPRequest = (\<lambda>h. (Writer 0, None)),
      ReleaseReturns = (\<lambda>w. w \<noteq> NilWriter),
      BodyWriterWrite = None,
      UDPWriterWrite = None,
      ReadTCPResponse = None\<rparr>"

section \<open>The dialing phase\<close>

subsection \<open>Round-robin picking\<close>

lemma pick_some:
  "serverlist p \<noteq> [] \<Longrightarrow>
   PickServer p = (Some (pick_at (serverlist p) (nextIndex p)),
                   p\<lparr>nextIndex := Suc (nextIndex p) mod length (serverlist p)\<rparr>)"
  by (cases "serverlist p") (simp_all add: PickServer_def pick_at_def)

lemma pick_none: "serverlist p = [] \<Longrightarrow> PickServer p = (None, p)"
  by (simp add: PickServer_def)

lemma pick_at_mod: "pick_at sl (i mod length sl + j) = pick_at sl (i + j)"
  by (simp add: pick_at_def mod_add_left_eq)

lemma pick_at_Suc_mod: "pick_at sl (Suc i mod length sl + j) = pick_at sl (Suc (i + j))"
  using pick_at_mod [of sl "Suc i" j] by simp

lemma target_at_Suc_mod:
  "target_at sl network (Suc i mod length sl + j) = target_at sl network (Suc (i + j))"
  by (simp add: target_at_def pick_at_Suc_mod)

lemma attempt_events_Suc_mod:
  "attempt_events m sl network (Suc i mod length sl + j) = attempt_events m sl network (Suc (i + j))"
  by (simp add: attempt_events_def target_at_Suc_mod)

lemma dial_events_Suc_mod:
  "dial_events m sl network (Suc i mod length sl + j) k = dial_events m sl network (Suc (i + j)) k"
proof (induction k arbitrary: j)
  case 0
  show ?case by (simp add: attempt_events_Suc_mod)
next
  case (Suc k)
  from Suc.IH [of "Suc j"] show ?case by (simp add: attempt_events_Suc_mod)
qed

lemma dial_events_Suc_mod0:
  "dial_events m sl network (Suc i mod length sl) k = dial_events m sl network (Suc i) k"
  using dial_events_Suc_mod [of m sl network i 0 k] by simp

lemma dial_attempt_fail:
  assumes "serverlist (picker v) \<noteq> []"
    and "Dial e (dials v) (OutboundHandlerMeta.Address m)
           (target_at (serverlist (picker v)) network (nextIndex (picker v))) (DialerOptions m) = Inl err"
  shows "dial_attempt e m network v =
           (AttemptErr err, attempt_events m (serverlist (picker v)) network (nextIndex (picker v)),
            v\<lparr>picker := (picker v)\<lparr>nextIndex := Suc (nextIndex (picker v)) mod length (serverlist (picker v))\<rparr>,
              dials := Suc (dials v),
              server := Some (pick_at (serverlist (picker v)) (nextIndex (picker v)))\<rparr>)"
  using assms by (simp add: dial_attempt_def pick_some target_at_def attempt_events_def)

lemma dial_attempt_ok:
  assumes "serverlist (picker v) \<noteq> []"
    and "Dial e (dials v) (OutboundHandlerMeta.Address m)
           (target_at (serverlist (picker v)) network (nextIndex (picker v))) (DialerOptions m) = Inr cn"
  shows "dial_attempt e m network v =
           (AttemptOk, attempt_events m (serverlist (picker v)) network (nextIndex (picker v)),
            v\<lparr>picker := (picker v)\<lparr>nextIndex := Suc (nextIndex (picker v)) mod length (serverlist (picker v))\<rparr>,
              dials := Suc (dials v),
              server := Some (pick_at (serverlist (picker v)) (nextIndex (picker v))),
              conn := Some cn\<rparr>)"
  using assms by (simp add: dial_attempt_def pick_some target_at_def attempt_events_def)


lemma retry_first_success:
  assumes "serverlist (picker v) = sl" and "sl \<noteq> []" and "k < n"
    and "\<forall>j<k. \<exists>err. Dial e (dials v + j) (OutboundHandlerMeta.Address m)
            (target_at sl network (nextIndex (picker v) + j)) (DialerOptions m) = Inl err"
    and "Dial e (dials v + k) (OutboundHandlerMeta.Address m)
            (target_at sl network (nextIndex (picker v) + k)) (DialerOptions m) = Inr cn"
  shows "retry_Timed_On n 100 (dial_attempt e m network) v =
           (AttemptOk, dial_events m sl network (nextIndex (picker v)) k,
            v\<lparr>picker := (picker v)\<lparr>nextIndex := Suc (nextIndex (picker v) + k) mod length sl\<rparr>,
              dials := Suc (dials v + k),
              server := Some (pick_at sl (nextIndex (picker v) + k)),
              conn := Some cn\<rparr>)"
  using assms
proof (induction k arbitrary: n v)
  case 0
  then obtain n' where n: "n = Suc n'" by (cases n) auto
  from 0 show ?case
    by (simp add: n dial_attempt_ok)
next
  case (Suc k)
  then obtain n' where n: "n = Suc n'" and n': "k < n'" "n' \<noteq> 0" by (cases n) auto
  from Suc.prems obtain err where
    err: "Dial e (dials v) (OutboundHandlerMeta.Address m)
            (target_at sl network (nextIndex (picker v))) (DialerOptions m) = Inl err"
    by fastforce
  define v' where "v' = v\<lparr>picker := (picker v)\<lparr>nextIndex := Suc (nextIndex (picker v)) mod length sl\<rparr>,
              dials := Suc (dials v),
              server := Some (pick_at sl (nextIndex (picker v)))\<rparr>"
  have step: "dial_attempt e m network v = (AttemptErr err, attempt_events m sl network (nextIndex (picker v)), v')"
    using dial_attempt_fail [of v e m network err] Suc.prems(1,2) err by (simp add: v'_def)
  have a: "serverlist (picker v') = sl" using Suc.prems(1) by (simp add: v'_def)
  have b: "\<forall>j<k. \<exists>err. Dial e (dials v' + j) (OutboundHandlerMeta.Address m)
            (target_at sl network (nextIndex (picker v') + j)) (DialerOptions m) = Inl err"
  proof (intro allI impI)
    fix j assume "j < k"
    then have "Suc j < Suc k" by simp
    with Suc.prems(4) obtain err' where
      "Dial e (dials v + Suc j) (OutboundHandlerMeta.Address m)
            (target_at sl network (nextIndex (picker v) + Suc j)) (DialerOptions m) = Inl err'"
      by blast
    then show "\<exists>err. Dial e (dials v' + j) (OutboundHandlerMeta.Address m)
            (target_at sl network (nextIndex (picker v') + j)) (DialerOptions m) = Inl err"
      by (simp add: v'_def target_at_Suc_mod)
  qed
  have c: "Dial e (dials v' + k) (OutboundHandlerMeta.Address m)
            (target_at sl network (nextIndex (picker v') + k)) (DialerOptions m) = Inr cn"
    using Suc.prems(5) by (simp add: v'_def target_at_Suc_mod)
  have m1: "Suc (Suc (nextIndex (picker v)) mod length sl + k) mod length sl
             = Suc (Suc (nextIndex (picker v) + k)) mod length sl"
    by (metis add_Suc mod_Suc_eq mod_add_left_eq)
  from Suc.IH [OF a Suc.prems(2) n'(1) b c] show ?case
    by (simp add: n n' step v'_def dial_events_Suc_mod0 pick_at_Suc_mod m1)
qed

lemma retry_all_fail:
  assumes "serverlist (picker v) = sl" and "sl \<noteq> []"
    and "\<forall>j<k. \<exists>err. Dial e (dials v + j) (OutboundHandlerMeta.Address m)
            (target_at sl network (nextIndex (picker v) + j)) (DialerOptions m) = Inl err"
    and "Dial e (dials v + k) (OutboundHandlerMeta.Address m)
            (target_at sl network (nextIndex (picker v) + k)) (DialerOptions m) = Inl final"
  shows "retry_Timed_On (Suc k) 100 (dial_attempt e m network) v =
           (AttemptErr final, dial_events m sl network (nextIndex (picker v)) k,
            v\<lparr>picker := (picker v)\<lparr>nextIndex := Suc (nextIndex (picker v) + k) mod length sl\<rparr>,
              dials := Suc (dials v + k),
              server := Some (pick_at sl (nextIndex (picker v) + k))\<rparr>)"
  using assms
proof (induction k arbitrary: v)
  case 0
  then show ?case by (simp add: dial_attempt_fail)
next
  case (Suc k)
  from Suc.prems obtain err where
    err: "Dial e (dials v) (OutboundHandlerMeta.Address m)
            (target_at sl network (nextIndex (picker v))) (DialerOptions m) = Inl err"
    by fastforce
  define v' where "v' = v\<lparr>picker := (picker v)\<lparr>nextIndex := Suc (nextIndex (picker v)) mod length sl\<rparr>,
              dials := Suc (dials v),
              server := Some (pick_at sl (nextIndex (picker v)))\<rparr>"
  have step: "dial_attempt e m network v = (AttemptErr err, attempt_events m sl network (nextIndex (picker v)), v')"
    using dial_attempt_fail [of v e m network err] Suc.prems(1,2) err by (simp add: v'_def)
  have a: "serverlist (picker v') = sl" using Suc.prems(1) by (simp add: v'_def)
  have b: "\<forall>j<k. \<exists>err. Dial e (dials v' + j) (OutboundHandlerMeta.Address m)
            (target_at sl network (nextIndex (picker v') + j)) (DialerOptions m) = Inl err"
  proof (intro allI impI)
    fix j assume "j < k"
    then have "Suc j < Suc k" by simp
    with Suc.prems(3) obtain err' where
      "Dial e (dials v + Suc j) (OutboundHandlerMeta.Address m)
            (target_at sl network (nextIndex (picker v) + Suc j)) (DialerOptions m) = Inl err'"
      by blast
    then show "\<exists>err. Dial e (dials v' + j) (OutboundHandlerMeta.Address m)
            (target_at sl network (nextIndex (picker v') + j)) (DialerOptions m) = Inl err"
      by (simp add: v'_def target_at_Suc_mod)
  qed
  have c: "Dial e (dials v' + k) (OutboundHandlerMeta.Address m)
            (target_at sl network (nextIndex (picker v') + k)) (DialerOptions m) = Inl final"
    using Suc.prems(4) by (simp add: v'_def target_at_Suc_mod)
  have m1: "Suc (Suc (nextIndex (picker v)) mod length sl + k) mod length sl
             = Suc (Suc (nextIndex (picker v) + k)) mod length sl"
    by (metis add_Suc mod_Suc_eq mod_add_left_eq)
  from Suc.IH [OF a Suc.prems(2) b c] show ?case
    by (simp add: step v'_def dial_events_Suc_mod0 pick_at_Suc_mod m1)
qed

lemma retry_empty_pool:
  assumes "serverlist (picker v) = []"
  shows "retry_Timed_On (Suc n) d (dial_attempt e m network) v =
           (AttemptPanic, [EvPickServer], v\<lparr>server := None\<rparr>)"
  using assms by (simp add: dial_attempt_def pick_none)

subsection \<open>What every dialing phase satisfies\<close>

lemma dial_attempt_inv:
  assumes "dial_attempt e m network v = (r, tr, v')"
  shows "list_all is_dialing tr" and "length (filter is_dial tr) \<le> 1"
    and "r = AttemptOk \<Longrightarrow> server v' \<noteq> None \<and> conn v' \<noteq> None"
  using assms
  by (auto simp: dial_attempt_def Let_def split: prod.splits option.splits sum.splits)

lemma retry_inv:
  assumes "retry_Timed_On n d (dial_attempt e m network) v = (r, tr, v')"
  shows "list_all is_dialing tr \<and> length (filter is_dial tr) \<le> n
         \<and> (r = AttemptOk \<longrightarrow> server v' \<noteq> None \<and> conn v' \<noteq> None)"
  using assms
proof (induction n arbitrary: v r tr v')
  case 0
  then show ?case by auto
next
  case (Suc n)
  obtain r1 tr1 v1 where step: "dial_attempt e m network v = (r1, tr1, v1)"
    by (cases "dial_attempt e m network v") auto
  note inv = dial_attempt_inv [OF step]
  show ?case
  proof (cases r1)
    case AttemptOk
    with Suc.prems step inv show ?thesis by auto
  next
    case AttemptPanic
    with Suc.prems step inv show ?thesis by auto
  next
    case (AttemptErr err)
    show ?thesis
    proof (cases "n = 0")
      case True
      with Suc.prems step inv AttemptErr show ?thesis by auto
    next
      case False
      obtain r2 tr2 v2 where rest: "retry_Timed_On n d (dial_attempt e m network) v1 = (r2, tr2, v2)"
        by (cases "retry_Timed_On n d (dial_attempt e m network) v1") auto
      from Suc.IH [OF rest] Suc.prems step inv AttemptErr False rest show ?thesis
        by auto
    qed
  qed
qed

lemma dial_phase_inv:
  assumes "dial_phase e c network = (r, tr, v)"
  shows "list_all is_dialing tr" and "length (filter is_dial tr) \<le> 5"
    and "r = AttemptOk \<Longrightarrow> \<exists>srv cn. server v = Some srv \<and> conn v = Some cn"
  using retry_inv [of 5 100 e "meta c" network _ r tr v] assms
  by (auto simp: dial_phase_def)

section \<open>Paths through Dispatch\<close>

lemma run_deferred_eq:
  "run_deferred e ds r =
     (if list_all (deferred_returns e) ds then r else Panicked, map deferred_event ds)"
  by (induction ds arbitrary: r) auto

lemma Dispatch_dial_failed:
  assumes "dial_phase e c (Network destination) = (AttemptErr err, ev, v)"
  shows "Dispatch e c destination =
           \<lparr>result = Returned (Some (''Shadowsocks|Client: Failed to find an available destination:'' @ err)),
            fg = ev @ [EvOutputClose, EvInputRelease, EvPayloadRelease],
            bg = None, request = None, chosen = None, picker_after = picker v\<rparr>"
  using assms by (simp add: Dispatch_def run_deferred_eq)

lemma Dispatch_dial_panicked:
  assumes "dial_phase e c (Network destination) = (AttemptPanic, ev, v)"
  shows "Dispatch e c destination =
           \<lparr>result = Panicked,
            fg = ev @ [EvOutputClose, EvInputRelease, EvPayloadRelease],
            bg = None, request = None, chosen = None, picker_after = picker v\<rparr>"
  using assms by (simp add: Dispatch_def run_deferred_eq)

lemma Dispatch_dialled:
  assumes "dial_phase e c (Network destination) = (AttemptOk, ev, v)"
    and "server v = Some srv" and "conn v = Some cn"
    and "after_dial e destination srv cn = (r0, ev', b, ds, req)"
  shows "Dispatch e c destination =
           \<lparr>result = (if list_all (deferred_returns e) ds then r0 else Panicked),
            fg = ev @ ev' @ map deferred_event ds @ [EvOutputClose, EvInputRelease, EvPayloadRelease],
            bg = b, request = Some req, chosen = Some (srv, cn), picker_after = picker v\<rparr>"
  using assms by (simp add: Dispatch_def run_deferred_eq)

lemma chosen_SomeD:
  assumes "chosen (Dispatch e c destination) = Some (srv, cn)"
  shows "\<exists>ev v. dial_phase e c (Network destination) = (AttemptOk, ev, v)
               \<and> server v = Some srv \<and> conn v = Some cn"
proof -
  obtain a ev v where dp: "dial_phase e c (Network destination) = (a, ev, v)"
    by (cases "dial_phase e c (Network destination)") auto
  show ?thesis
  proof (cases a)
    case AttemptOk
    with dial_phase_inv(3) [OF dp] obtain srv' cn' where sc: "server v = Some srv'" "conn v = Some cn'"
      by auto
    obtain r0 ev' b ds req where ad: "after_dial e destination srv' cn' = (r0, ev', b, ds, req)"
      by (cases "after_dial e destination srv' cn'") auto
    from Dispatch_dialled [OF dp [unfolded AttemptOk] sc ad] assms dp AttemptOk sc show ?thesis
      by simp
  next
    case (AttemptErr err)
    from Dispatch_dial_failed [OF dp [unfolded AttemptErr]] assms show ?thesis by simp
  next
    case AttemptPanic
    from Dispatch_dial_panicked [OF dp [unfolded AttemptPanic]] assms show ?thesis by simp
  qed
qed

lemma relay_TCP:
  "Command h = RequestCommandTCP \<Longrightarrow> relay e h u cn = Dispatch_TCP e h u cn"
  by (simp add: relay_def split: prod.splits option.splits)

lemma relay_UDP:
  "Command h = RequestCommandUDP \<Longrightarrow> relay e h u cn = Dispatch_UDP e h cn"
  by (simp add: relay_def split: prod.splits option.splits)

lemma after_dial_account_error:
  assumes "GetTypedAccount (PickUser e srv) = Inl err"
  shows "after_dial e destination srv cn =
           (Returned (Some (''Shadowsocks|Client: Failed to get a valid user account: '' @ err)),
            [EvLogInfo destination (dest srv), EvSetReusable cn False, EvPickUser, EvGetTypedAccount],
            None, [], new_request e destination)"
  using assms by (simp add: after_dial_def)

lemma after_dial_other_account:
  assumes "GetTypedAccount (PickUser e srv) = Inr OtherAccount"
  shows "after_dial e destination srv cn =
           (Panicked,
            [EvLogInfo destination (dest srv), EvSetReusable cn False, EvPickUser, EvGetTypedAccount],
            None, [], new_request e destination)"
  using assms by (simp add: after_dial_def)

lemma after_dial_account:
  assumes "GetTypedAccount (PickUser e srv) = Inr (ShadowsocksAccountPtr account)"
    and "relay e (set_user_option e (PickUser e srv) account (new_request e destination)) (PickUser e srv) cn
           = (r, ev, b, ds)"
  shows "after_dial e destination srv cn =
           ((case r of Some r' \<Rightarrow> r' | None \<Rightarrow> Returned None),
            [EvLogInfo destination (dest srv), EvSetReusable cn False, EvPickUser, EvGetTypedAccount] @ ev,
            b, ds, set_user_option e (PickUser e srv) account (new_request e destination))"
  using assms by (simp add: after_dial_def)

lemma Command_set_user_option [simp]:
  "Command (set_user_option e u a h) = Command h"
  by (simp add: set_user_option_def Let_def)

lemma Command_new_request [simp]:
  "Command (new_request e destination) =
     (if Network destination = Network_TCP then RequestCommandTCP else RequestCommandUDP)"
  by (simp add: new_request_def)

lemma after_dial_request_Command:
  assumes "after_dial e destination srv cn = (r0, ev, b, ds, req)"
  shows "Command req = (if Network destination = Network_TCP then RequestCommandTCP else RequestCommandUDP)"
  using assms
  by (auto simp: after_dial_def Let_def split: sum.splits Account.splits prod.splits)

subsection \<open>The dialing phase of a client\<close>

lemma dial_phase_success:
  assumes "serverlist (serverPicker c) \<noteq> []" and "k < 5"
    and "\<forall>j<k. isl (dial_outcome e c network j)"
    and "dial_outcome e c network k = Inr cn"
  shows "dial_phase e c network =
           (AttemptOk,
            dial_events (meta c) (serverlist (serverPicker c)) network (nextIndex (serverPicker c)) k,
            \<lparr>picker = (serverPicker c)
                 \<lparr>nextIndex := Suc (nextIndex (serverPicker c) + k) mod length (serverlist (serverPicker c))\<rparr>,
             dials = Suc k,
             server = Some (pick_at (serverlist (serverPicker c)) (nextIndex (serverPicker c) + k)),
             conn = Some cn\<rparr>)"
proof -
  define v where "v = \<lparr>picker = serverPicker c, dials = 0, server = None, conn = None\<rparr>"
  have a: "serverlist (picker v) = serverlist (serverPicker c)" by (simp add: v_def)
  have b: "\<forall>j<k. \<exists>err. Dial e (dials v + j) (OutboundHandlerMeta.Address (meta c))
            (target_at (serverlist (serverPicker c)) network (nextIndex (picker v) + j))
            (DialerOptions (meta c)) = Inl err"
  proof (intro allI impI)
    fix j assume "j < k"
    with assms(3) have "isl (dial_outcome e c network j)" by simp
    then show "\<exists>err. Dial e (dials v + j) (OutboundHandlerMeta.Address (meta c))
            (target_at (serverlist (serverPicker c)) network (nextIndex (picker v) + j))
            (DialerOptions (meta c)) = Inl err"
      by (cases "dial_outcome e c network j") (simp_all add: dial_outcome_def v_def)
  qed
  have d: "Dial e (dials v + k) (OutboundHandlerMeta.Address (meta c))
            (target_at (serverlist (serverPicker c)) network (nextIndex (picker v) + k))
            (DialerOptions (meta c)) = Inr cn"
    using assms(4) by (simp add: dial_outcome_def v_def)
  from retry_first_success [OF a assms(1) assms(2) b d] show ?thesis
    by (simp add: dial_phase_def v_def)
qed

lemma dial_phase_all_failed:
  assumes "serverlist (serverPicker c) \<noteq> []"
    and "\<forall>j<4. isl (dial_outcome e c network j)"
    and "dial_outcome e c network 4 = Inl final"
  shows "dial_phase e c network =
           (AttemptErr final,
            dial_events (meta c) (serverlist (serverPicker c)) network (nextIndex (serverPicker c)) 4,
            \<lparr>picker = (serverPicker c)
                 \<lparr>nextIndex := Suc (nextIndex (serverPicker c) + 4) mod length (serverlist (serverPicker c))\<rparr>,
             dials = 5,
             server = Some (pick_at (serverlist (serverPicker c)) (nextIndex (serverPicker c) + 4)),
             conn = None\<rparr>)"
proof -
  define v where "v = \<lparr>picker = serverPicker c, dials = 0, server = None, conn = None\<rparr>"
  have a: "serverlist (picker v) = serverlist (serverPicker c)" by (simp add: v_def)
  have b: "\<forall>j<4. \<exists>err. Dial e (dials v + j) (OutboundHandlerMeta.Address (meta c))
            (target_at (serverlist (serverPicker c)) network (nextIndex (picker v) + j))
            (DialerOptions (meta c)) = Inl err"
  proof (intro allI impI)
    fix j :: nat assume "j < 4"
    with assms(2) have "isl (dial_outcome e c network j)" by simp
    then show "\<exists>err. Dial e (dials v + j) (OutboundHandlerMeta.Address (meta c))
            (target_at (serverlist (serverPicker c)) network (nextIndex (picker v) + j))
            (DialerOptions (meta c)) = Inl err"
      by (cases "dial_outcome e c network j") (simp_all add: dial_outcome_def v_def)
  qed
  have d: "Dial e (dials v + 4) (OutboundHandlerMeta.Address (meta c))
            (target_at (serverlist (serverPicker c)) network (nextIndex (picker v) + 4))
            (DialerOptions (meta c)) = Inl final"
    using assms(3) by (simp add: dial_outcome_def v_def)
  have "dial_phase e c network = retry_Timed_On (Suc 4) 100 (dial_attempt e (meta c) network) v"
    by (simp add: dial_phase_def v_def)
  with retry_all_fail [OF a assms(1) b d] show ?thesis
    by (simp add: v_def)
qed

lemma dial_events_dialing: "list_all is_dialing (dial_events m sl network i k)"
  by (induction k arbitrary: i) (simp_all add: attempt_events_def)

lemma dial_events_count: "length (filter is_dial (dial_events m sl network i k)) = Suc k"
  by (induction k arbitrary: i) (simp_all add: attempt_events_def)

lemma Dispatch_TCP_events:
  "Dispatch_TCP e h u cn = (r, ev, b, ds) \<Longrightarrow> inner_part ev ds b"
  by (cases "WriteTCPRequest e h"; cases "snd (WriteTCPRequest e h)"; cases "BodyWriterWrite e";
      cases "ReadTCPResponse e")
     (auto simp: Dispatch_TCP_def tcp_response_def inner_part_def is_inner_def Let_def)

lemma Dispatch_UDP_events:
  "Dispatch_UDP e h cn = (r, ev, b, ds) \<Longrightarrow> inner_part ev ds b"
  by (cases "UDPWriterWrite e")
     (auto simp: Dispatch_UDP_def udp_response_def inner_part_def is_inner_def Let_def)

lemma relay_events:
  assumes "relay e h u cn = (r, ev, b, ds)"
  shows "inner_part ev ds b"
proof (cases "Command h")
  case RequestCommandTCP
  with assms have "Dispatch_TCP e h u cn = (r, ev, b, ds)" by (simp add: relay_TCP)
  then show ?thesis by (rule Dispatch_TCP_events)
next
  case RequestCommandUDP
  with assms have "Dispatch_UDP e h cn = (r, ev, b, ds)" by (simp add: relay_UDP)
  then show ?thesis by (rule Dispatch_UDP_events)
qed

lemma after_dial_events:
  assumes "after_dial e destination srv cn = (r0, ev, b, ds, req)"
  shows "inner_part ev ds b"
proof (cases "GetTypedAccount (PickUser e srv)")
  case (Inl err)
  from after_dial_account_error [OF Inl, of destination cn] assms show ?thesis
    by (auto simp: inner_part_def is_inner_def)
next
  case (Inr raw)
  show ?thesis
  proof (cases raw)
    case OtherAccount
    from after_dial_other_account [OF Inr [unfolded OtherAccount], of destination cn] assms
    show ?thesis by (auto simp: inner_part_def is_inner_def)
  next
    case (ShadowsocksAccountPtr account)
    obtain r ev' b' ds' where rl:
      "relay e (set_user_option e (PickUser e srv) account (new_request e destination)) (PickUser e srv) cn
         = (r, ev', b', ds')"
      by (cases "relay e (set_user_option e (PickUser e srv) account (new_request e destination)) (PickUser e srv) cn") auto
    from after_dial_account [OF Inr [unfolded ShadowsocksAccountPtr] rl] assms
    have eq: "ev = [EvLogInfo destination (dest srv), EvSetReusable cn False, EvPickUser, EvGetTypedAccount] @ ev'"
      "b = b'" "ds = ds'" by simp_all
    from relay_events [OF rl] show ?thesis
      by (simp add: eq inner_part_def is_inner_def)
  qed
qed

lemma Dispatch_shape:
  "\<exists>inner. fg (Dispatch e c destination) =
             fst (snd (dial_phase e c (Network destination))) @ inner
               @ [EvOutputClose, EvInputRelease, EvPayloadRelease]
           \<and> list_all is_inner inner
           \<and> (case bg (Dispatch e c destination) of None \<Rightarrow> True | Some t \<Rightarrow> list_all is_inner t)"
proof -
  obtain a ev v where dp: "dial_phase e c (Network destination) = (a, ev, v)"
    by (cases "dial_phase e c (Network destination)") auto
  show ?thesis
  proof (cases a)
    case AttemptOk
    with dial_phase_inv(3) [OF dp] obtain srv cn where sc: "server v = Some srv" "conn v = Some cn"
      by auto
    obtain r0 ev' b ds req where ad: "after_dial e destination srv cn = (r0, ev', b, ds, req)"
      by (cases "after_dial e destination srv cn") auto
    from after_dial_events [OF ad] have "list_all is_inner (ev' @ map deferred_event ds)"
      and "case b of None \<Rightarrow> True | Some t \<Rightarrow> list_all is_inner t"
      by (simp_all add: inner_part_def)
    with Dispatch_dialled [OF dp [unfolded AttemptOk] sc ad] dp show ?thesis
      by (intro exI [of _ "ev' @ map deferred_event ds"]) simp
  next
    case (AttemptErr err)
    from Dispatch_dial_failed [OF dp [unfolded AttemptErr]] dp show ?thesis by simp
  next
    case AttemptPanic
    from Dispatch_dial_panicked [OF dp [unfolded AttemptPanic]] dp show ?thesis by simp
  qed
qed

lemma count_list_0: "list_all P xs \<Longrightarrow> \<not> P x \<Longrightarrow> count_list xs x = 0"
  by (induction xs) auto

lemma dialing_not_top: "list_all is_dialing xs \<Longrightarrow> is_top_cleanup x \<Longrightarrow> count_list xs x = 0"
  by (rule count_list_0 [where P = is_dialing]) (auto elim: is_top_cleanup.elims)

lemma inner_not_top: "list_all is_inner xs \<Longrightarrow> is_top_cleanup x \<Longrightarrow> count_list xs x = 0"
  by (rule count_list_0 [where P = is_inner]) (auto simp: is_inner_def)

lemma top_cleanup_once:
  assumes "is_top_cleanup x"
  shows "count_list (all_events (Dispatch e c destination)) x = 1"
proof -
  from Dispatch_shape [of e c destination] obtain inner where
    fg: "fg (Dispatch e c destination) =
           fst (snd (dial_phase e c (Network destination))) @ inner
             @ [EvOutputClose, EvInputRelease, EvPayloadRelease]"
    and inner: "list_all is_inner inner"
    and b: "case bg (Dispatch e c destination) of None \<Rightarrow> True | Some t \<Rightarrow> list_all is_inner t"
    by blast
  have "list_all is_dialing (fst (snd (dial_phase e c (Network destination))))"
    using dial_phase_inv(1) [of e c "Network destination"] by (metis prod.collapse)
  then have d0: "count_list (fst (snd (dial_phase e c (Network destination)))) x = 0"
    using assms by (rule dialing_not_top)
  have i0: "count_list inner x = 0" using inner assms by (rule inner_not_top)
  have b0: "count_list (case bg (Dispatch e c destination) of None \<Rightarrow> [] | Some t \<Rightarrow> t) x = 0"
    using b assms by (cases "bg (Dispatch e c destination)") (simp_all add: inner_not_top)
  have t1: "count_list [EvOutputClose, EvInputRelease, EvPayloadRelease] x = 1"
    using assms by (cases x) simp_all
  have "count_list (all_events (Dispatch e c destination)) x =
          count_list (fst (snd (dial_phase e c (Network destination)))) x + count_list inner x
          + count_list [EvOutputClose, EvInputRelease, EvPayloadRelease] x
          + count_list (case bg (Dispatch e c destination) of None \<Rightarrow> [] | Some t \<Rightarrow> t) x"
    unfolding all_events_def fg by (simp only: count_list_append add.assoc)
  with d0 i0 b0 t1 show ?thesis by linarith
qed

lemma Option_set_user_option:
  "Option (set_user_option e u a (new_request e destination)) =
     (if OneTimeAuth a = Account_Auto \<or> OneTimeAuth a = Account_Enabled
      then RequestOptionOneTimeAuth e else 0)"
  by (simp add: set_user_option_def new_request_def Let_def)

lemma after_dial_request:
  assumes "GetTypedAccount (PickUser e srv) = Inr (ShadowsocksAccountPtr account)"
  shows "snd (snd (snd (snd (after_dial e destination srv cn)))) =
           set_user_option e (PickUser e srv) account (new_request e destination)"
  using assms by (simp add: after_dial_def Let_def split: prod.splits)

lemma Dispatch_request:
  assumes "chosen (Dispatch e c destination) = Some (srv, cn)"
  shows "request (Dispatch e c destination) = Some (snd (snd (snd (snd (after_dial e destination srv cn)))))"
proof -
  from chosen_SomeD [OF assms] obtain ev v where
    dp: "dial_phase e c (Network destination) = (AttemptOk, ev, v)"
    and sc: "server v = Some srv" "conn v = Some cn" by blast
  obtain r0 ev' b ds req where ad: "after_dial e destination srv cn = (r0, ev', b, ds, req)"
    by (cases "after_dial e destination srv cn") auto
  from Dispatch_dialled [OF dp sc ad] ad show ?thesis by simp
qed

lemma dial_count:
  "length (filter is_dial (fg (Dispatch e c destination))) \<le> 5"
proof -
  from Dispatch_shape [of e c destination] obtain inner where
    fg: "fg (Dispatch e c destination) =
           fst (snd (dial_phase e c (Network destination))) @ inner
             @ [EvOutputClose, EvInputRelease, EvPayloadRelease]"
    and inner: "list_all is_inner inner"
    by blast
  have "filter is_dial inner = []"
    using inner by (induction inner) (auto simp: is_inner_def elim: is_dial.elims)
  moreover have "length (filter is_dial (fst (snd (dial_phase e c (Network destination))))) \<le> 5"
    using dial_phase_inv(2) [of e c "Network destination"] by (metis prod.collapse)
  ultimately show ?thesis by (simp add: fg)
qed

lemma Dispatch_dialled_shape:
  assumes "dial_phase e c (Network destination) = (AttemptOk, ev, v)"
    and "server v = Some srv" and "conn v = Some cn"
  shows "chosen (Dispatch e c destination) = Some (srv, cn)"
    and "picker_after (Dispatch e c destination) = picker v"
    and "\<exists>rest. fg (Dispatch e c destination) = ev @ rest \<and> \<not> list_ex is_dialing rest"
proof -
  obtain r0 ev' b ds req where ad: "after_dial e destination srv cn = (r0, ev', b, ds, req)"
    by (cases "after_dial e destination srv cn") auto
  note D = Dispatch_dialled [OF assms ad]
  from D show "chosen (Dispatch e c destination) = Some (srv, cn)" by simp
  from D show "picker_after (Dispatch e c destination) = picker v" by simp
  from after_dial_events [OF ad] have "list_all is_inner (ev' @ map deferred_event ds)"
    by (simp add: inner_part_def)
  then have "\<not> list_ex is_dialing (ev' @ map deferred_event ds @ [EvOutputClose, EvInputRelease, EvPayloadRelease])"
    by (auto simp: list_all_iff list_ex_iff is_inner_def)
  with D show "\<exists>rest. fg (Dispatch e c destination) = ev @ rest \<and> \<not> list_ex is_dialing rest"
    by (intro exI [of _ "ev' @ map deferred_event ds @ [EvOutputClose, EvInputRelease, EvPayloadRelease]"]) simp
qed

lemma is_dialing_no_write:
  "is_dialing x \<Longrightarrow> \<not> is_write x \<and> (\<forall>cn b. x \<noteq> EvSetReusable cn b)"
  by (cases x) simp_all

lemma dialing_no_write:
  "list_all is_dialing xs \<Longrightarrow> x \<in> set xs \<Longrightarrow> \<not> is_write x \<and> (\<forall>cn b. x \<noteq> EvSetReusable cn b)"
  using is_dialing_no_write [of x] by (simp add: list_all_iff)

lemma Dispatch_after:
  assumes "chosen (Dispatch e c destination) = Some (srv, cn)"
    and "after_dial e destination srv cn = (r0, ev, b, ds, req)"
  shows "result (Dispatch e c destination) = (if list_all (deferred_returns e) ds then r0 else Panicked)"
    and "fg (Dispatch e c destination)
           = dialing_events e c destination @ ev @ map deferred_event ds
               @ [EvOutputClose, EvInputRelease, EvPayloadRelease]"
    and "bg (Dispatch e c destination) = b"
    and "request (Dispatch e c destination) = Some req"
proof -
  from chosen_SomeD [OF assms(1)] obtain dev v where
    dp: "dial_phase e c (Network destination) = (AttemptOk, dev, v)"
    and sc: "server v = Some srv" "conn v = Some cn" by blast
  note D = Dispatch_dialled [OF dp sc assms(2)]
  from D show "result (Dispatch e c destination) = (if list_all (deferred_returns e) ds then r0 else Panicked)"
    by simp
  from D dp show "fg (Dispatch e c destination)
           = dialing_events e c destination @ ev @ map deferred_event ds
               @ [EvOutputClose, EvInputRelease, EvPayloadRelease]"
    by (simp add: dialing_events_def)
  from D show "bg (Dispatch e c destination) = b" by simp
  from D show "request (Dispatch e c destination) = Some req" by simp
qed

lemma dialing_events_no_write: "\<not> list_ex is_write (dialing_events e c destination)"
proof -
  have "list_all is_dialing (dialing_events e c destination)"
    unfolding dialing_events_def
    using dial_phase_inv(1) [of e c "Network destination"] by (metis prod.collapse)
  then show ?thesis
    using is_dialing_no_write by (auto simp: list_all_iff list_ex_iff)
qed

lemma Dispatch_TCP_write_failed:
  assumes "WriteTCPRequest e h = (w, Some msg)"
  shows "Dispatch_TCP e h u cn =
           (Some (Returned (Some (''Shadowsock|Client: Failed to write request: '' @ msg))),
            [EvNewBufferedWriter cn, EvWriteTCPRequest h], None,
            [DeferBodyWriterRelease w, DeferBufferedWriterRelease])"
  using assms by (simp add: Dispatch_TCP_def)

lemma Dispatch_TCP_written:
  assumes "WriteTCPRequest e h = (w, None)" and "BodyWriterWrite e = None"
  shows "Dispatch_TCP e h u cn =
           (None,
            [EvNewBufferedWriter cn, EvWriteTCPRequest h, EvBodyWriterWrite, EvMutexLock, EvGo,
             EvSetCached False, EvPipeInput, EvMutexLock],
            Some (tcp_response e u cn),
            [DeferBodyWriterRelease w, DeferBufferedWriterRelease])"
  using assms by (simp add: Dispatch_TCP_def)

lemma Dispatch_UDP_written:
  assumes "UDPWriterWrite e = None"
  shows "Dispatch_UDP e h cn =
           (None,
            [EvNewTimeOutReader 16 cn, EvMutexLock, EvGo, EvUDPWrite h cn, EvPipeInput, EvMutexLock],
            Some udp_response, [])"
  using assms by (simp add: Dispatch_UDP_def)

lemma Dispatch_UDP_write_failed:
  assumes "UDPWriterWrite e = Some msg"
  shows "Dispatch_UDP e h cn =
           (Some (Returned (Some (''Shadowsocks|Client: Failed to write payload: '' @ msg))),
            [EvNewTimeOutReader 16 cn, EvMutexLock, EvGo, EvUDPWrite h cn],
            Some udp_response, [])"
  using assms by (simp add: Dispatch_UDP_def)

lemma dial_attempt_ReadTCPResponse:
  "dial_attempt (e\<lparr>ReadTCPResponse := r\<rparr>) m network = dial_attempt e m network"
  by (rule ext) (simp add: dial_attempt_def Let_def split: prod.splits option.splits)

lemma dial_phase_ReadTCPResponse:
  "dial_phase (e\<lparr>ReadTCPResponse := r\<rparr>) c network = dial_phase e c network"
  by (simp add: dial_phase_def dial_attempt_ReadTCPResponse)

lemma chosen_ReadTCPResponse:
  assumes "chosen (Dispatch e c destination) = Some (srv, cn)"
  shows "chosen (Dispatch (e\<lparr>ReadTCPResponse := r\<rparr>) c destination) = Some (srv, cn)"
proof -
  from chosen_SomeD [OF assms] obtain ev v where
    dp: "dial_phase e c (Network destination) = (AttemptOk, ev, v)"
    and sc: "server v = Some srv" "conn v = Some cn" by blast
  from dp have "dial_phase (e\<lparr>ReadTCPResponse := r\<rparr>) c (Network destination) = (AttemptOk, ev, v)"
    by (simp add: dial_phase_ReadTCPResponse)
  from Dispatch_dialled_shape(1) [OF this sc] show ?thesis .
qed

lemma dialing_events_ReadTCPResponse:
  "dialing_events (e\<lparr>ReadTCPResponse := r\<rparr>) c destination = dialing_events e c destination"
  by (simp add: dialing_events_def dial_phase_ReadTCPResponse)

lemma written_run:
  assumes "chosen (Dispatch e c destination) = Some (srv, cn)"
    and "GetTypedAccount (PickUser e srv) = Inr (ShadowsocksAccountPtr account)"
    and "request_written e (set_user_option e (PickUser e srv) account (new_request e destination))"
  shows "result (Dispatch e c destination) = Returned None"
    and "bg (Dispatch e c destination)
           = Some (if Network destination = Network_TCP then tcp_response e (PickUser e srv) cn
                   else udp_response)"
    and "fg (Dispatch e c destination)
           = dialing_events e c destination
             @ [EvLogInfo destination (dest srv), EvSetReusable cn False, EvPickUser, EvGetTypedAccount]
             @ (if Network destination = Network_TCP
                then [EvNewBufferedWriter cn,
                      EvWriteTCPRequest (set_user_option e (PickUser e srv) account (new_request e destination)),
                      EvBodyWriterWrite, EvMutexLock, EvGo, EvSetCached False, EvPipeInput, EvMutexLock,
                      EvBodyWriterRelease
                        (fst (WriteTCPRequest e (set_user_option e (PickUser e srv) account (new_request e destination)))),
                      EvBufferedWriterRelease]
                else [EvNewTimeOutReader 16 cn, EvMutexLock, EvGo,
                      EvUDPWrite (set_user_option e (PickUser e srv) account (new_request e destination)) cn,
                      EvPipeInput, EvMutexLock])
             @ [EvOutputClose, EvInputRelease, EvPayloadRelease]"
proof -
  let ?h = "set_user_option e (PickUser e srv) account (new_request e destination)"
  show "result (Dispatch e c destination) = Returned None"
    and "bg (Dispatch e c destination)
           = Some (if Network destination = Network_TCP then tcp_response e (PickUser e srv) cn
                   else udp_response)"
    and "fg (Dispatch e c destination)
           = dialing_events e c destination
             @ [EvLogInfo destination (dest srv), EvSetReusable cn False, EvPickUser, EvGetTypedAccount]
             @ (if Network destination = Network_TCP
                then [EvNewBufferedWriter cn, EvWriteTCPRequest ?h,
                      EvBodyWriterWrite, EvMutexLock, EvGo, EvSetCached False, EvPipeInput, EvMutexLock,
                      EvBodyWriterRelease (fst (WriteTCPRequest e ?h)),
                      EvBufferedWriterRelease]
                else [EvNewTimeOutReader 16 cn, EvMutexLock, EvGo, EvUDPWrite ?h cn,
                      EvPipeInput, EvMutexLock])
             @ [EvOutputClose, EvInputRelease, EvPayloadRelease]"
  proof (atomize (full), cases "Network destination = Network_TCP")
    case True
    then have cmd: "Command ?h = RequestCommandTCP" by simp
    obtain w where w: "WriteTCPRequest e ?h = (w, None)" and rel: "ReleaseReturns e w"
      and bw: "BodyWriterWrite e = None"
      using assms(3) cmd by (cases "WriteTCPRequest e ?h") (auto simp: request_written_def)
    note rl = Dispatch_TCP_written [OF w bw, of "PickUser e srv" cn, folded relay_TCP [OF cmd]]
    note D = Dispatch_after [OF assms(1) after_dial_account [OF assms(2) rl]]
    from D True rel w show "result (Dispatch e c destination) = Returned None \<and>
      bg (Dispatch e c destination)
           = Some (if Network destination = Network_TCP then tcp_response e (PickUser e srv) cn
                   else udp_response) \<and>
      fg (Dispatch e c destination)
           = dialing_events e c destination
             @ [EvLogInfo destination (dest srv), EvSetReusable cn False, EvPickUser, EvGetTypedAccount]
             @ (if Network destination = Network_TCP
                then [EvNewBufferedWriter cn, EvWriteTCPRequest ?h,
                      EvBodyWriterWrite, EvMutexLock, EvGo, EvSetCached False, EvPipeInput, EvMutexLock,
                      EvBodyWriterRelease (fst (WriteTCPRequest e ?h)),
                      EvBufferedWriterRelease]
                else [EvNewTimeOutReader 16 cn, EvMutexLock, EvGo, EvUDPWrite ?h cn,
                      EvPipeInput, EvMutexLock])
             @ [EvOutputClose, EvInputRelease, EvPayloadRelease]"
      by simp
  next
    case False
    then have cmd: "Command ?h = RequestCommandUDP" by simp
    have uw: "UDPWriterWrite e = None"
      using assms(3) cmd by (simp add: request_written_def)
    note rl = Dispatch_UDP_written [OF uw, of ?h cn, folded relay_UDP [OF cmd, of e "PickUser e srv"]]
    note D = Dispatch_after [OF assms(1) after_dial_account [OF assms(2) rl]]
    from D False show "result (Dispatch e c destination) = Returned None \<and>
      bg (Dispatch e c destination)
           = Some (if Network destination = Network_TCP then tcp_response e (PickUser e srv) cn
                   else udp_response) \<and>
      fg (Dispatch e c destination)
           = dialing_events e c destination
             @ [EvLogInfo destination (dest srv), EvSetReusable cn False, EvPickUser, EvGetTypedAccount]
             @ (if Network destination = Network_TCP
                then [EvNewBufferedWriter cn, EvWriteTCPRequest ?h,
                      EvBodyWriterWrite, EvMutexLock, EvGo, EvSetCached False, EvPipeInput, EvMutexLock,
                      EvBodyWriterRelease (fst (WriteTCPRequest e ?h)),
                      EvBufferedWriterRelease]
                else [EvNewTimeOutReader 16 cn, EvMutexLock, EvGo, EvUDPWrite ?h cn,
                      EvPipeInput, EvMutexLock])
             @ [EvOutputClose, EvInputRelease, EvPayloadRelease]"
      by simp
  qed
qed

lemma new_request_ReadTCPResponse:
  "new_request (e\<lparr>ReadTCPResponse := r\<rparr>) destination = new_request e destination"
  by (simp add: new_request_def)

lemma set_user_option_ReadTCPResponse:
  "set_user_option (e\<lparr>ReadTCPResponse := r\<rparr>) u a h = set_user_option e u a h"
  by (simp add: set_user_option_def Let_def)

lemma request_written_ReadTCPResponse:
  "request_written (e\<lparr>ReadTCPResponse := r\<rparr>) h = request_written e h"
  by (simp add: request_written_def split: RequestCommand.splits prod.splits)

subsection \<open>Schedules of a guarded run\<close>

lemma interleave_no_background:
  "interleave locked spawned fs [] ts = Some order \<Longrightarrow> Background \<notin> fst ` set order"
proof (induction ts arbitrary: locked spawned fs order)
  case Nil
  then show ?case by simp
next
  case (Cons t ts)
  show ?case
  proof (cases t)
    case Foreground
    with Cons.prems obtain f fs' order' where
      "fs = f # fs'" and "order = (Foreground, f) # order'"
      and "interleave (f = EvMutexLock \<or> locked) (f = EvGo \<or> spawned) fs' [] ts = Some order'"
      by (cases fs) (auto split: if_splits)
    with Cons.IH show ?thesis by auto
  next
    case Background
    with Cons.prems show ?thesis by simp
  qed
qed

lemma guarded_no_race:
  assumes "guarded locked spawned fs bs"
    and "interleave locked spawned fs bs ts = Some order"
  shows "\<not> cleanup_races order"
  using assms
proof (induction ts arbitrary: locked spawned fs bs order)
  case Nil
  then show ?case by simp
next
  case (Cons t ts)
  show ?case
  proof (cases t)
    case Foreground
    with Cons.prems(2) obtain f fs' order' where
      fs: "fs = f # fs'" and order: "order = (Foreground, f) # order'"
      and free: "\<not> (f = EvMutexLock \<and> locked)"
      and rest: "interleave (f = EvMutexLock \<or> locked) (f = EvGo \<or> spawned) fs' bs ts = Some order'"
      by (cases fs) (auto split: if_splits)
    show ?thesis
    proof (cases "bs = []")
      case True
      then have "guarded (f = EvMutexLock \<or> locked) (f = EvGo \<or> spawned) fs' bs"
        by (simp add: guarded_def)
      from Cons.IH [OF this rest] have "\<not> cleanup_races order'" .
      moreover from rest True have "Background \<notin> fst ` set order'"
        using interleave_no_background by blast
      ultimately show ?thesis by (simp add: order)
    next
      case False
      with Cons.prems(1) have ul: "unlock_last bs"
        and ph: "if locked then before_lock fs else \<not> spawned \<and> before_spawn fs"
        by (simp_all add: guarded_def)
      have nc: "\<not> is_cleanup f"
        using ph free fs by (cases locked) (auto split: if_splits)
      have "guarded (f = EvMutexLock \<or> locked) (f = EvGo \<or> spawned) fs' bs"
        using ph free fs ul by (cases locked) (auto simp: guarded_def split: if_splits)
      from Cons.IH [OF this rest] nc show ?thesis by (simp add: order)
    qed
  next
    case Background
    with Cons.prems(2) obtain b bs' order' where
      bs: "bs = b # bs'" and order: "order = (Background, b) # order'"
      and sp: spawned
      and rest: "interleave (b \<noteq> EvMutexUnlock \<and> locked) spawned fs bs' ts = Some order'"
      by (cases bs) (auto split: if_splits)
    from Cons.prems(1) bs sp have ul: "unlock_last (b # bs')" and lk: locked and bl: "before_lock fs"
      by (auto simp: guarded_def split: if_splits)
    have "guarded (b \<noteq> EvMutexUnlock \<and> locked) spawned fs bs'"
    proof (cases bs')
      case Nil
      then show ?thesis by (simp add: guarded_def)
    next
      case (Cons b' bs'')
      with ul lk bl show ?thesis by (simp add: guarded_def)
    qed
    from Cons.IH [OF this rest] show ?thesis by (simp add: order)
  qed
qed

lemma is_dialing_plain: "is_dialing x \<Longrightarrow> \<not> is_cleanup x \<and> x \<noteq> EvGo \<and> x \<noteq> EvMutexLock"
  by (cases x) simp_all

lemma before_spawn_dialing:
  "list_all is_dialing xs \<Longrightarrow> before_spawn (xs @ ys) = before_spawn ys"
  by (induction xs) (auto dest: is_dialing_plain)

lemma unlock_last_tcp_response: "unlock_last (tcp_response e u cn)"
  by (cases "ReadTCPResponse e") (simp_all add: tcp_response_def)

lemma unlock_last_udp_response: "unlock_last udp_response"
  by (simp add: udp_response_def)

lemma written_run_never_races:
  assumes "chosen (Dispatch e c destination) = Some (srv, cn)"
    and "GetTypedAccount (PickUser e srv) = Inr (ShadowsocksAccountPtr account)"
    and "request_written e (set_user_option e (PickUser e srv) account (new_request e destination))"
    and "bg (Dispatch e c destination) = Some bs"
    and "interleave False False (fg (Dispatch e c destination)) bs ts = Some order"
  shows "\<not> cleanup_races order"
proof -
  note R = written_run [OF assms(1-3)]
  have d: "list_all is_dialing (dialing_events e c destination)"
    unfolding dialing_events_def
    using dial_phase_inv(1) [of e c "Network destination"] by (metis prod.collapse)
  have "before_spawn (fg (Dispatch e c destination))"
    unfolding R(3) before_spawn_dialing [OF d] by simp
  moreover have "unlock_last bs"
    using R(2) assms(4) unlock_last_tcp_response unlock_last_udp_response
    by (auto split: if_splits)
  ultimately have "guarded False False (fg (Dispatch e c destination)) bs"
    by (simp add: guarded_def)
  from guarded_no_race [OF this assms(5)] show ?thesis .
qed

section \<open>The request header\<close>

text \<open>
  Claim C1, as the code has it: whenever a dispatch builds a request header, its command
  is \<^verbatim>\<open>RequestCommandTCP\<close> exactly when the network kind of the requested destination
  is \<^verbatim>\<open>Network_TCP\<close>, and \<^verbatim>\<open>RequestCommandUDP\<close> for every other kind, the raw-stream
  kind \<^verbatim>\<open>Network_RawTCP\<close> included.
\<close>

theorem command_is_stream_only_for_TCP:
  assumes "request (Dispatch e c destination) = Some h"
  shows "Command h = (if Network destination = Network_TCP then RequestCommandTCP else RequestCommandUDP)"
proof -
  obtain a ev v where dp: "dial_phase e c (Network destination) = (a, ev, v)"
    by (cases "dial_phase e c (Network destination)") auto
  show ?thesis
  proof (cases a)
    case AttemptOk
    with dial_phase_inv(3) [OF dp] obtain srv cn where sc: "server v = Some srv" "conn v = Some cn"
      by auto
    obtain r0 ev' b ds req where ad: "after_dial e destination srv cn = (r0, ev', b, ds, req)"
      by (cases "after_dial e destination srv cn") auto
    from Dispatch_dialled [OF dp [unfolded AttemptOk] sc ad] assms have "h = req" by simp
    with after_dial_request_Command [OF ad] show ?thesis by simp
  next
    case (AttemptErr err)
    from Dispatch_dial_failed [OF dp [unfolded AttemptErr]] assms show ?thesis by simp
  next
    case AttemptPanic
    from Dispatch_dial_panicked [OF dp [unfolded AttemptPanic]] assms show ?thesis by simp
  qed
qed

theorem command_is_stream_only_for_TCP_witness:
  "request (Dispatch (example_env 0 (example_account Account_Enabled)) example_client
              (example_destination Network_TCP))
     = Some (example_request RequestCommandTCP Account_Enabled 101)
   \<and> Command (example_request RequestCommandTCP Account_Enabled 101) = RequestCommandTCP"
proof -
  have h: "request (Dispatch (example_env 0 (example_account Account_Enabled)) example_client
                      (example_destination Network_TCP))
             = Some (example_request RequestCommandTCP Account_Enabled 101)"
    by code_simp
  from command_is_stream_only_for_TCP [OF h] h show ?thesis
    by (simp add: example_destination_def)
qed

text \<open>
  Claim C1 as stated fails on a destination of the raw-stream kind: the kind is listed by
  \<^verbatim>\<open>StreamCapability\<close>, and the header built for it carries the datagram command.
\<close>

theorem raw_stream_gets_datagram_command:
  "Network (example_destination Network_RawTCP) \<in> set StreamCapability
   \<and> map_option Command
       (request (Dispatch (example_env 0 (example_account Account_Enabled)) example_client
                   (example_destination Network_RawTCP)))
     = Some RequestCommandUDP"
  by code_simp

text \<open>
  Claim C2: when a dispatch has dialled a server and the account of the user picked for
  it resolves (to a \<^verbatim>\<open>*ShadowsocksAccount\<close>), the option byte of the header built is
  the flag \<^verbatim>\<open>RequestOptionOneTimeAuth\<close> alone if the mode is auto or enabled, and zero
  if it is disabled; so, the flag being a non-zero constant, it is set if and only if
  the mode is enabled or auto.
\<close>

theorem one_time_auth_flag:
  assumes "chosen (Dispatch e c destination) = Some (srv, cn)"
    and "GetTypedAccount (PickUser e srv) = Inr (ShadowsocksAccountPtr account)"
    and "RequestOptionOneTimeAuth e \<noteq> 0"
  shows "\<exists>h. request (Dispatch e c destination) = Some h
           \<and> Option h = (if OneTimeAuth account = Account_Enabled \<or> OneTimeAuth account = Account_Auto
                          then RequestOptionOneTimeAuth e else 0)
           \<and> (option_has (Option h) (RequestOptionOneTimeAuth e)
                \<longleftrightarrow> OneTimeAuth account = Account_Enabled \<or> OneTimeAuth account = Account_Auto)
           \<and> (OneTimeAuth account = Account_Disabled
                \<longrightarrow> \<not> option_has (Option h) (RequestOptionOneTimeAuth e))"
proof -
  let ?h = "set_user_option e (PickUser e srv) account (new_request e destination)"
  have "request (Dispatch e c destination) = Some ?h"
    using Dispatch_request [OF assms(1)] after_dial_request [OF assms(2)] by simp
  moreover have "Option ?h = (if OneTimeAuth account = Account_Enabled \<or> OneTimeAuth account = Account_Auto
                          then RequestOptionOneTimeAuth e else 0)"
    by (auto simp: Option_set_user_option)
  moreover have "option_has (Option ?h) (RequestOptionOneTimeAuth e)
                \<longleftrightarrow> OneTimeAuth account = Account_Enabled \<or> OneTimeAuth account = Account_Auto"
    using assms(3) by (auto simp: Option_set_user_option option_has_def)
  moreover have "OneTimeAuth account = Account_Disabled
                \<longrightarrow> \<not> option_has (Option ?h) (RequestOptionOneTimeAuth e)"
    using assms(3) by (auto simp: Option_set_user_option option_has_def)
  ultimately show ?thesis by blast
qed

theorem one_time_auth_flag_witness:
  "chosen (Dispatch (example_env 0 (example_account Account_Disabled)) example_client
             (example_destination Network_TCP)) = Some (example_server 1, 0)
   \<and> GetTypedAccount (PickUser (example_env 0 (example_account Account_Disabled)) (example_server 1))
       = Inr (ShadowsocksAccountPtr \<lparr>OneTimeAuth = Account_Disabled\<rparr>)
   \<and> RequestOptionOneTimeAuth (example_env 0 (example_account Account_Disabled)) \<noteq> 0
   \<and> (\<exists>h. request (Dispatch (example_env 0 (example_account Account_Disabled)) example_client
                      (example_destination Network_TCP)) = Some h
          \<and> Option h = 0
          \<and> \<not> option_has (Option h) (RequestOptionOneTimeAuth (example_env 0 (example_account Account_Disabled))))"
proof -
  have a: "chosen (Dispatch (example_env 0 (example_account Account_Disabled)) example_client
             (example_destination Network_TCP)) = Some (example_server 1, 0)"
    by code_simp
  have b: "GetTypedAccount (PickUser (example_env 0 (example_account Account_Disabled)) (example_server 1))
       = Inr (ShadowsocksAccountPtr \<lparr>OneTimeAuth = Account_Disabled\<rparr>)"
    by (simp add: GetTypedAccount_def example_env_def example_user_def example_account_def)
  have c: "RequestOptionOneTimeAuth (example_env 0 (example_account Account_Disabled)) \<noteq> 0"
    by (simp add: example_env_def)
  from one_time_auth_flag [OF a b c] a b c show ?thesis
    by auto
qed

section \<open>Cleanup\<close>

text \<open>
  Claim C5: on every path out of \<^verbatim>\<open>Dispatch\<close>, whatever the collaborators do (dial
  failure, account failure, write failure, success, and the panics of the model), the
  run holds exactly one release of the payload buffer, exactly one release of the Input
  and exactly one close of the Output.
\<close>

theorem cleanup_exactly_once:
  "count_list (all_events (Dispatch e c destination)) EvPayloadRelease = 1
   \<and> count_list (all_events (Dispatch e c destination)) EvInputRelease = 1
   \<and> count_list (all_events (Dispatch e c destination)) EvOutputClose = 1"
proof (intro conjI)
  show "count_list (all_events (Dispatch e c destination)) EvPayloadRelease = 1"
    by (rule top_cleanup_once) simp
  show "count_list (all_events (Dispatch e c destination)) EvInputRelease = 1"
    by (rule top_cleanup_once) simp
  show "count_list (all_events (Dispatch e c destination)) EvOutputClose = 1"
    by (rule top_cleanup_once) simp
qed

section \<open>Dialing\<close>

text \<open>
  Claim C3: a dispatch dials at most five times. If, on a non-empty pool, the dials of
  the attempts before the \<open>k\<close>-th fail (\<open>k < 5\<close>, counted from zero) and the dial of the
  \<open>k\<close>-th attempt succeeds with connection \<open>cn\<close>, then the dialing phase consists of
  exactly the attempts \<open>0\<close> to \<open>k\<close>, a delay of 100 ms between two consecutive attempts;
  attempt \<open>j\<close> picks the server that the round-robin rotation holds \<open>j\<close> places after
  its position at entry and dials that server's destination with the network kind
  replaced by the kind of the requested destination; the loop ends with the connection
  \<open>cn\<close> and the server of attempt \<open>k\<close>, and the rotation has advanced by \<open>k + 1\<close>
  places. No later event of the run picks, dials or delays.
\<close>

theorem dialing_retries:
  "length (filter is_dial (fg (Dispatch e c destination))) \<le> 5
   \<and> (serverlist (serverPicker c) \<noteq> [] \<and> k < 5
        \<and> (\<forall>j<k. isl (dial_outcome e c (Network destination) j))
        \<and> dial_outcome e c (Network destination) k = Inr cn
      \<longrightarrow> chosen (Dispatch e c destination)
            = Some (pick_at (serverlist (serverPicker c)) (nextIndex (serverPicker c) + k), cn)
          \<and> (\<exists>rest. fg (Dispatch e c destination)
                      = dial_events (meta c) (serverlist (serverPicker c)) (Network destination)
                          (nextIndex (serverPicker c)) k @ rest
                    \<and> \<not> list_ex is_dialing rest)
          \<and> length (filter is_dial (fg (Dispatch e c destination))) = Suc k
          \<and> picker_after (Dispatch e c destination)
            = (serverPicker c)\<lparr>nextIndex := Suc (nextIndex (serverPicker c) + k)
                                   mod length (serverlist (serverPicker c))\<rparr>)"
proof (intro conjI impI)
  show "length (filter is_dial (fg (Dispatch e c destination))) \<le> 5" by (rule dial_count)
next
  assume h: "serverlist (serverPicker c) \<noteq> [] \<and> k < 5
        \<and> (\<forall>j<k. isl (dial_outcome e c (Network destination) j))
        \<and> dial_outcome e c (Network destination) k = Inr cn"
  let ?sl = "serverlist (serverPicker c)" and ?i = "nextIndex (serverPicker c)"
  let ?v = "\<lparr>picker = (serverPicker c)\<lparr>nextIndex := Suc (?i + k) mod length ?sl\<rparr>,
             dials = Suc k, server = Some (pick_at ?sl (?i + k)), conn = Some cn\<rparr>"
  from h have dp: "dial_phase e c (Network destination)
                    = (AttemptOk, dial_events (meta c) ?sl (Network destination) ?i k, ?v)"
    by (intro dial_phase_success) simp_all
  have sv: "server ?v = Some (pick_at ?sl (?i + k))" and cv: "conn ?v = Some cn" by simp_all
  note S = Dispatch_dialled_shape [OF dp sv cv]
  from S(1) show "chosen (Dispatch e c destination) = Some (pick_at ?sl (?i + k), cn)" .
  from S(3) show rest: "\<exists>rest. fg (Dispatch e c destination)
                      = dial_events (meta c) ?sl (Network destination) ?i k @ rest
                    \<and> \<not> list_ex is_dialing rest" .
  from S(2) show "picker_after (Dispatch e c destination)
            = (serverPicker c)\<lparr>nextIndex := Suc (?i + k) mod length ?sl\<rparr>" by simp
  from rest obtain rest where
    fg: "fg (Dispatch e c destination) = dial_events (meta c) ?sl (Network destination) ?i k @ rest"
    and nd: "\<not> list_ex is_dialing rest" by blast
  have "filter is_dial rest = []"
    using nd by (induction rest) (auto elim: is_dial.elims)
  then show "length (filter is_dial (fg (Dispatch e c destination))) = Suc k"
    by (simp add: fg dial_events_count)
qed

theorem dialing_retries_witness:
  "serverlist (serverPicker example_client) \<noteq> [] \<and> (2::nat) < 5
   \<and> isl (dial_outcome (example_env 2 (example_account Account_Auto)) example_client
            (Network (example_destination Network_UDP)) 0)
   \<and> isl (dial_outcome (example_env 2 (example_account Account_Auto)) example_client
            (Network (example_destination Network_UDP)) 1)
   \<and> dial_outcome (example_env 2 (example_account Account_Auto)) example_client
        (Network (example_destination Network_UDP)) 2 = Inr 2
   \<and> chosen (Dispatch (example_env 2 (example_account Account_Auto)) example_client
               (example_destination Network_UDP)) = Some (example_server 3, 2)
   \<and> length (filter is_dial (fg (Dispatch (example_env 2 (example_account Account_Auto)) example_client
                                   (example_destination Network_UDP)))) = 3"
proof -
  have a: "serverlist (serverPicker example_client) \<noteq> [] \<and> (2::nat) < 5"
    by (simp add: example_client_def NewClient_def)
  have b: "\<forall>j<2. isl (dial_outcome (example_env 2 (example_account Account_Auto)) example_client
                    (Network (example_destination Network_UDP)) j)"
    by (simp add: dial_outcome_def example_env_def)
  have d: "dial_outcome (example_env 2 (example_account Account_Auto)) example_client
        (Network (example_destination Network_UDP)) 2 = Inr 2"
    by (simp add: dial_outcome_def example_env_def)
  have p: "pick_at (serverlist (serverPicker example_client)) (nextIndex (serverPicker example_client) + 2)
             = example_server 3"
    by (simp add: pick_at_def example_client_def NewClient_def)
  have b': "isl (dial_outcome (example_env 2 (example_account Account_Auto)) example_client
                 (Network (example_destination Network_UDP)) 0)"
    "isl (dial_outcome (example_env 2 (example_account Account_Auto)) example_client
            (Network (example_destination Network_UDP)) 1)"
    by (simp_all add: dial_outcome_def example_env_def)
  from dialing_retries [of "example_env 2 (example_account Account_Auto)" example_client
         "example_destination Network_UDP" 2 2] a b d p
  have "chosen (Dispatch (example_env 2 (example_account Account_Auto)) example_client
               (example_destination Network_UDP)) = Some (example_server 3, 2)
   \<and> length (filter is_dial (fg (Dispatch (example_env 2 (example_account Account_Auto)) example_client
                                   (example_destination Network_UDP)))) = 3"
    by simp
  with a b' d show ?thesis by blast
qed

text \<open>
  Claim C4: if, on a non-empty pool, all five dials fail, \<^verbatim>\<open>Dispatch\<close> returns the
  error whose text is the fixed prefix naming the operation followed by the text of the
  error of the fifth dial. The run consists of the five attempts and the three
  deferred calls and nothing else: no \<^verbatim>\<open>SetReusable\<close>, no write, no goroutine; no header
  is built and no connection is chosen.
\<close>

theorem all_dials_fail:
  assumes "serverlist (serverPicker c) \<noteq> []"
    and "\<forall>j<4. isl (dial_outcome e c (Network destination) j)"
    and "dial_outcome e c (Network destination) 4 = Inl final"
  shows "result (Dispatch e c destination)
           = Returned (Some (''Shadowsocks|Client: Failed to find an available destination:'' @ final))
         \<and> fg (Dispatch e c destination)
           = dial_events (meta c) (serverlist (serverPicker c)) (Network destination)
               (nextIndex (serverPicker c)) 4
             @ [EvOutputClose, EvInputRelease, EvPayloadRelease]
         \<and> bg (Dispatch e c destination) = None
         \<and> request (Dispatch e c destination) = None
         \<and> chosen (Dispatch e c destination) = None
         \<and> (\<forall>x \<in> set (fg (Dispatch e c destination)).
               \<not> is_write x \<and> (\<forall>cn b. x \<noteq> EvSetReusable cn b))"
proof -
  let ?ev = "dial_events (meta c) (serverlist (serverPicker c)) (Network destination)
               (nextIndex (serverPicker c)) 4"
  note D = Dispatch_dial_failed [OF dial_phase_all_failed [OF assms]]
  have "\<forall>x \<in> set ?ev. \<not> is_write x \<and> (\<forall>cn b. x \<noteq> EvSetReusable cn b)"
    using dialing_no_write [OF dial_events_dialing] by blast
  with D show ?thesis by simp
qed

theorem all_dials_fail_witness:
  "serverlist (serverPicker example_client) \<noteq> []
   \<and> isl (dial_outcome (example_env 5 (example_account Account_Auto)) example_client
            (Network (example_destination Network_TCP)) 0)
   \<and> isl (dial_outcome (example_env 5 (example_account Account_Auto)) example_client
            (Network (example_destination Network_TCP)) 1)
   \<and> isl (dial_outcome (example_env 5 (example_account Account_Auto)) example_client
            (Network (example_destination Network_TCP)) 2)
   \<and> isl (dial_outcome (example_env 5 (example_account Account_Auto)) example_client
            (Network (example_destination Network_TCP)) 3)
   \<and> dial_outcome (example_env 5 (example_account Account_Auto)) example_client
        (Network (example_destination Network_TCP)) 4 = Inl ''connection refused''
   \<and> result (Dispatch (example_env 5 (example_account Account_Auto)) example_client
               (example_destination Network_TCP))
     = Returned (Some ''Shadowsocks|Client: Failed to find an available destination:connection refused'')"
proof -
  have a: "serverlist (serverPicker example_client) \<noteq> []"
    by (simp add: example_client_def NewClient_def)
  have b: "\<forall>j<4. isl (dial_outcome (example_env 5 (example_account Account_Auto)) example_client
                    (Network (example_destination Network_TCP)) j)"
    by (simp add: dial_outcome_def example_env_def)
  have d: "dial_outcome (example_env 5 (example_account Account_Auto)) example_client
        (Network (example_destination Network_TCP)) 4 = Inl ''connection refused''"
    by (simp add: dial_outcome_def example_env_def)
  have b': "isl (dial_outcome (example_env 5 (example_account Account_Auto)) example_client
                 (Network (example_destination Network_TCP)) 0)"
    "isl (dial_outcome (example_env 5 (example_account Account_Auto)) example_client
            (Network (example_destination Network_TCP)) 1)"
    "isl (dial_outcome (example_env 5 (example_account Account_Auto)) example_client
            (Network (example_destination Network_TCP)) 2)"
    "isl (dial_outcome (example_env 5 (example_account Account_Auto)) example_client
            (Network (example_destination Network_TCP)) 3)"
    by (simp_all add: dial_outcome_def example_env_def)
  from all_dials_fail [OF a b d]
  have "result (Dispatch (example_env 5 (example_account Account_Auto)) example_client
               (example_destination Network_TCP))
     = Returned (Some ''Shadowsocks|Client: Failed to find an available destination:connection refused'')"
    by simp
  with a b' d show ?thesis by blast
qed

section \<open>The account\<close>

text \<open>
  Claim C8, as the code has it: when a dispatch has dialled a server and
  \<^verbatim>\<open>GetTypedAccount\<close> fails for the user picked, \<^verbatim>\<open>Dispatch\<close> returns the error whose
  text is the fixed prefix followed by the text of that error. By then the request
  header exists with its version, address, port and command (lines 66 to 75); its user
  and its option are still unset. After the dialing phase the run holds the log line,
  \<^verbatim>\<open>SetReusable\<close>, the two account calls and the three deferred calls: nothing is
  written to the connection and no goroutine is spawned.
\<close>

theorem account_failure:
  assumes "chosen (Dispatch e c destination) = Some (srv, cn)"
    and "GetTypedAccount (PickUser e srv) = Inl err"
  shows "result (Dispatch e c destination)
           = Returned (Some (''Shadowsocks|Client: Failed to get a valid user account: '' @ err))
         \<and> request (Dispatch e c destination) = Some (new_request e destination)
         \<and> User (new_request e destination) = None
         \<and> Option (new_request e destination) = 0
         \<and> fg (Dispatch e c destination)
           = dialing_events e c destination
             @ [EvLogInfo destination (dest srv), EvSetReusable cn False, EvPickUser, EvGetTypedAccount,
                EvOutputClose, EvInputRelease, EvPayloadRelease]
         \<and> bg (Dispatch e c destination) = None
         \<and> \<not> list_ex is_write (fg (Dispatch e c destination))"
proof -
  note D = Dispatch_after [OF assms(1) after_dial_account_error [OF assms(2)]]
  have "User (new_request e destination) = None" and "Option (new_request e destination) = 0"
    by (simp_all add: new_request_def)
  with D dialing_events_no_write [of e c destination] show ?thesis
    by simp
qed

theorem account_failure_witness:
  "chosen (Dispatch (example_env 0 (Inl ''invalid credential'')) example_client
             (example_destination Network_TCP)) = Some (example_server 1, 0)
   \<and> GetTypedAccount (PickUser (example_env 0 (Inl ''invalid credential'')) (example_server 1))
       = Inl ''invalid credential''
   \<and> result (Dispatch (example_env 0 (Inl ''invalid credential'')) example_client
               (example_destination Network_TCP))
       = Returned (Some ''Shadowsocks|Client: Failed to get a valid user account: invalid credential'')
   \<and> \<not> list_ex is_write (fg (Dispatch (example_env 0 (Inl ''invalid credential'')) example_client
                                  (example_destination Network_TCP)))"
proof -
  have a: "chosen (Dispatch (example_env 0 (Inl ''invalid credential'')) example_client
             (example_destination Network_TCP)) = Some (example_server 1, 0)"
    by code_simp
  have b: "GetTypedAccount (PickUser (example_env 0 (Inl ''invalid credential'')) (example_server 1))
       = Inl ''invalid credential''"
    by (simp add: GetTypedAccount_def example_env_def example_user_def)
  note T = account_failure [OF a b]
  from T have r: "result (Dispatch (example_env 0 (Inl ''invalid credential'')) example_client
               (example_destination Network_TCP))
       = Returned (Some ''Shadowsocks|Client: Failed to get a valid user account: invalid credential'')"
    by simp
  from T have w: "\<not> list_ex is_write (fg (Dispatch (example_env 0 (Inl ''invalid credential''))
                                  example_client (example_destination Network_TCP)))"
    by blast
  from a b r w show ?thesis by blast
qed

text \<open>
  Claim C8 as stated fails: when the account error surfaces, the request header has
  already been constructed. Here the error is returned and the local \<^verbatim>\<open>request\<close> holds
  a header with the version, the command, the address and the port.
\<close>

theorem header_built_before_account_failure:
  "result (Dispatch (example_env 0 (Inl ''invalid credential'')) example_client
             (example_destination Network_TCP))
     = Returned (Some ''Shadowsocks|Client: Failed to get a valid user account: invalid credential'')
   \<and> request (Dispatch (example_env 0 (Inl ''invalid credential'')) example_client
                (example_destination Network_TCP))
     = Some \<lparr>RequestHeader.Version = 1, RequestHeader.User = None,
             RequestHeader.Command = RequestCommandTCP, RequestHeader.Option = 0,
             RequestHeader.Address = ''example.com'', RequestHeader.Port = 443\<rparr>"
  by code_simp

text \<open>
  Claim C9: when a dispatch has dialled a server and \<^verbatim>\<open>GetTypedAccount\<close> succeeds for
  the user picked, a value that is not a \<^verbatim>\<open>*ShadowsocksAccount\<close> makes \<^verbatim>\<open>Dispatch\<close>
  panic at the type assertion of line 82 (no error is returned; nothing is written; the
  three deferred calls still run). Hence a dispatch that does not panic had a
  \<^verbatim>\<open>*ShadowsocksAccount\<close>.
\<close>

theorem unchecked_type_assertion:
  assumes "chosen (Dispatch e c destination) = Some (srv, cn)"
    and "GetTypedAccount (PickUser e srv) = Inr rawAccount"
  shows "(rawAccount = OtherAccount \<longrightarrow>
            result (Dispatch e c destination) = Panicked
            \<and> fg (Dispatch e c destination)
              = dialing_events e c destination
                @ [EvLogInfo destination (dest srv), EvSetReusable cn False, EvPickUser,
                   EvGetTypedAccount, EvOutputClose, EvInputRelease, EvPayloadRelease]
            \<and> bg (Dispatch e c destination) = None)
         \<and> (result (Dispatch e c destination) \<noteq> Panicked \<longrightarrow>
              (\<exists>account. rawAccount = ShadowsocksAccountPtr account))"
proof (cases rawAccount)
  case OtherAccount
  with assms(2) have "GetTypedAccount (PickUser e srv) = Inr OtherAccount" by simp
  note D = Dispatch_after [OF assms(1) after_dial_other_account [OF this]]
  from D OtherAccount show ?thesis by simp
next
  case (ShadowsocksAccountPtr account)
  then show ?thesis by simp
qed

theorem unchecked_type_assertion_witness:
  "chosen (Dispatch (example_env 0 (Inr OtherAccount)) example_client
             (example_destination Network_TCP)) = Some (example_server 1, 0)
   \<and> GetTypedAccount (PickUser (example_env 0 (Inr OtherAccount)) (example_server 1)) = Inr OtherAccount
   \<and> result (Dispatch (example_env 0 (Inr OtherAccount)) example_client
               (example_destination Network_TCP)) = Panicked
   \<and> chosen (Dispatch (example_env 0 (example_account Account_Auto)) example_client
               (example_destination Network_TCP)) = Some (example_server 1, 0)
   \<and> GetTypedAccount (PickUser (example_env 0 (example_account Account_Auto)) (example_server 1))
       = example_account Account_Auto
   \<and> result (Dispatch (example_env 0 (example_account Account_Auto)) example_client
               (example_destination Network_TCP)) \<noteq> Panicked
   \<and> (\<exists>account. example_account Account_Auto = Inr (ShadowsocksAccountPtr account))"
proof -
  have a: "chosen (Dispatch (example_env 0 (Inr OtherAccount)) example_client
             (example_destination Network_TCP)) = Some (example_server 1, 0)"
    by code_simp
  have b: "GetTypedAccount (PickUser (example_env 0 (Inr OtherAccount)) (example_server 1)) = Inr OtherAccount"
    by (simp add: GetTypedAccount_def example_env_def example_user_def)
  have a': "chosen (Dispatch (example_env 0 (example_account Account_Auto)) example_client
               (example_destination Network_TCP)) = Some (example_server 1, 0)"
    by code_simp
  have b': "GetTypedAccount (PickUser (example_env 0 (example_account Account_Auto)) (example_server 1))
       = Inr (ShadowsocksAccountPtr \<lparr>OneTimeAuth = Account_Auto\<rparr>)"
    by (simp add: GetTypedAccount_def example_env_def example_user_def example_account_def)
  have n: "result (Dispatch (example_env 0 (example_account Account_Auto)) example_client
               (example_destination Network_TCP)) \<noteq> Panicked"
    by code_simp
  from unchecked_type_assertion [OF a b] have p: "result (Dispatch (example_env 0 (Inr OtherAccount))
               example_client (example_destination Network_TCP)) = Panicked"
    by simp
  from unchecked_type_assertion [OF a' b'] n
  have q: "\<exists>account. example_account Account_Auto = Inr (ShadowsocksAccountPtr account)"
    by (simp add: example_account_def)
  from a b p a' b' n q show ?thesis
    by (simp add: example_account_def)
qed

section \<open>Stream mode: a failed header write\<close>

text \<open>
  Claim C10: in stream mode, when \<^verbatim>\<open>WriteTCPRequest\<close> returns an error together with a
  body writer \<open>w\<close> (\<^verbatim>\<open>nil\<close> or not), the deferred \<^verbatim>\<open>Release\<close> is still called on \<open>w\<close>:
  the run ends with the release of \<open>w\<close>, the release of the buffered writer and the
  three top-level deferred calls, and no payload is written. \<^verbatim>\<open>Dispatch\<close> returns the
  wrapped write error exactly when that \<^verbatim>\<open>Release\<close> returns; otherwise it panics.
\<close>

theorem release_after_failed_header_write:
  assumes "chosen (Dispatch e c destination) = Some (srv, cn)"
    and "GetTypedAccount (PickUser e srv) = Inr (ShadowsocksAccountPtr account)"
    and "Network destination = Network_TCP"
    and "WriteTCPRequest e (set_user_option e (PickUser e srv) account (new_request e destination))
           = (w, Some msg)"
  shows "fg (Dispatch e c destination)
           = dialing_events e c destination
             @ [EvLogInfo destination (dest srv), EvSetReusable cn False, EvPickUser, EvGetTypedAccount,
                EvNewBufferedWriter cn,
                EvWriteTCPRequest (set_user_option e (PickUser e srv) account (new_request e destination)),
                EvBodyWriterRelease w, EvBufferedWriterRelease,
                EvOutputClose, EvInputRelease, EvPayloadRelease]
         \<and> result (Dispatch e c destination)
           = (if ReleaseReturns e w
              then Returned (Some (''Shadowsock|Client: Failed to write request: '' @ msg))
              else Panicked)
         \<and> bg (Dispatch e c destination) = None"
proof -
  let ?h = "set_user_option e (PickUser e srv) account (new_request e destination)"
  have cmd: "Command ?h = RequestCommandTCP" using assms(3) by simp
  have rl: "relay e ?h (PickUser e srv) cn =
              (Some (Returned (Some (''Shadowsock|Client: Failed to write request: '' @ msg))),
               [EvNewBufferedWriter cn, EvWriteTCPRequest ?h], None,
               [DeferBodyWriterRelease w, DeferBufferedWriterRelease])"
    using relay_TCP [OF cmd] Dispatch_TCP_write_failed [OF assms(4)] by simp
  note D = Dispatch_after [OF assms(1) after_dial_account [OF assms(2) rl]]
  from D show ?thesis by simp
qed

theorem release_after_failed_header_write_witness:
  "chosen (Dispatch ((example_env 0 (example_account Account_Enabled))
                       \<lparr>WriteTCPRequest := \<lambda>h. (NilWriter, Some ''short write'')\<rparr>)
             example_client (example_destination Network_TCP)) = Some (example_server 1, 0)
   \<and> GetTypedAccount (PickUser ((example_env 0 (example_account Account_Enabled))
                                  \<lparr>WriteTCPRequest := \<lambda>h. (NilWriter, Some ''short write'')\<rparr>)
                         (example_server 1))
       = Inr (ShadowsocksAccountPtr \<lparr>OneTimeAuth = Account_Enabled\<rparr>)
   \<and> Network (example_destination Network_TCP) = Network_TCP
   \<and> result (Dispatch ((example_env 0 (example_account Account_Enabled))
                         \<lparr>WriteTCPRequest := \<lambda>h. (NilWriter, Some ''short write'')\<rparr>)
               example_client (example_destination Network_TCP)) = Panicked"
proof -
  let ?e = "(example_env 0 (example_account Account_Enabled))
              \<lparr>WriteTCPRequest := \<lambda>h. (NilWriter, Some ''short write'')\<rparr>"
  have a: "chosen (Dispatch ?e example_client (example_destination Network_TCP))
             = Some (example_server 1, 0)"
    by code_simp
  have b: "GetTypedAccount (PickUser ?e (example_server 1))
             = Inr (ShadowsocksAccountPtr \<lparr>OneTimeAuth = Account_Enabled\<rparr>)"
    by (simp add: GetTypedAccount_def example_env_def example_user_def example_account_def)
  have n: "Network (example_destination Network_TCP) = Network_TCP"
    by (simp add: example_destination_def)
  have w: "WriteTCPRequest ?e (set_user_option ?e (PickUser ?e (example_server 1))
                                 \<lparr>OneTimeAuth = Account_Enabled\<rparr>
                                 (new_request ?e (example_destination Network_TCP)))
             = (NilWriter, Some ''short write'')"
    by simp
  have rr: "\<not> ReleaseReturns ?e NilWriter" by (simp add: example_env_def)
  from release_after_failed_header_write [OF a b n w] rr
  have p: "result (Dispatch ?e example_client (example_destination Network_TCP)) = Panicked"
    by simp
  from a b n p show ?thesis by blast
qed

section \<open>The response path\<close>

text \<open>
  Claim C6: take a dispatch that has dialled a server, resolved the account and written
  the header and the first payload without error. Whatever \<^verbatim>\<open>ReadTCPResponse\<close> returns
  in the spawned goroutine (\<open>r\<close> is its error, or \<open>None\<close>), \<^verbatim>\<open>Dispatch\<close> returns
  \<^verbatim>\<open>nil\<close> and the invoking goroutine does the same calls. In stream mode a failed
  \<^verbatim>\<open>ReadTCPResponse\<close> is logged as a warning and the response is not piped to the
  Output; the goroutine then releases the mutex. (The value \<^verbatim>\<open>v2io.Pipe\<close> returns is
  discarded at each of its four calls, so a read error that ends a pipe has no outcome
  to model: it does not reach the return value, and \<^verbatim>\<open>Dispatch\<close> does not log it.)
\<close>

theorem response_failure_not_returned:
  assumes "chosen (Dispatch e c destination) = Some (srv, cn)"
    and "GetTypedAccount (PickUser e srv) = Inr (ShadowsocksAccountPtr account)"
    and "request_written e (set_user_option e (PickUser e srv) account (new_request e destination))"
  shows "result (Dispatch (e\<lparr>ReadTCPResponse := r\<rparr>) c destination) = Returned None
         \<and> fg (Dispatch (e\<lparr>ReadTCPResponse := r\<rparr>) c destination) = fg (Dispatch e c destination)
         \<and> bg (Dispatch (e\<lparr>ReadTCPResponse := r\<rparr>) c destination)
           = Some (if Network destination = Network_TCP
                   then (case r of
                           Some err \<Rightarrow>
                             [EvReadTCPResponse (PickUser e srv) cn,
                              EvLogWarning (''Shadowsocks|Client: Failed to read response: '' @ err),
                              EvMutexUnlock]
                         | None \<Rightarrow>
                             [EvReadTCPResponse (PickUser e srv) cn, EvPipeOutput, EvMutexUnlock])
                   else [EvPipeOutput, EvMutexUnlock])"
proof -
  let ?e = "e\<lparr>ReadTCPResponse := r\<rparr>"
  have a: "chosen (Dispatch ?e c destination) = Some (srv, cn)"
    using assms(1) by (rule chosen_ReadTCPResponse)
  have b: "GetTypedAccount (PickUser ?e srv) = Inr (ShadowsocksAccountPtr account)"
    using assms(2) by simp
  have w: "request_written ?e (set_user_option ?e (PickUser ?e srv) account (new_request ?e destination))"
    using assms(3)
    by (simp add: request_written_ReadTCPResponse set_user_option_ReadTCPResponse
          new_request_ReadTCPResponse)
  note R = written_run [OF a b w]
  note R0 = written_run [OF assms]
  from R(1) have "result (Dispatch ?e c destination) = Returned None" .
  moreover from R(3) R0(3) have "fg (Dispatch ?e c destination) = fg (Dispatch e c destination)"
    by (simp add: dialing_events_ReadTCPResponse set_user_option_ReadTCPResponse
          new_request_ReadTCPResponse)
  moreover from R(2) have "bg (Dispatch ?e c destination)
           = Some (if Network destination = Network_TCP
                   then (case r of
                           Some err \<Rightarrow>
                             [EvReadTCPResponse (PickUser e srv) cn,
                              EvLogWarning (''Shadowsocks|Client: Failed to read response: '' @ err),
                              EvMutexUnlock]
                         | None \<Rightarrow>
                             [EvReadTCPResponse (PickUser e srv) cn, EvPipeOutput, EvMutexUnlock])
                   else [EvPipeOutput, EvMutexUnlock])"
    by (simp add: tcp_response_def udp_response_def)
  ultimately show ?thesis by blast
qed

theorem response_failure_not_returned_witness:
  "chosen (Dispatch (example_env 0 (example_account Account_Enabled)) example_client
             (example_destination Network_TCP)) = Some (example_server 1, 0)
   \<and> GetTypedAccount (PickUser (example_env 0 (example_account Account_Enabled)) (example_server 1))
       = Inr (ShadowsocksAccountPtr \<lparr>OneTimeAuth = Account_Enabled\<rparr>)
   \<and> request_written (example_env 0 (example_account Account_Enabled))
         (set_user_option (example_env 0 (example_account Account_Enabled))
            (PickUser (example_env 0 (example_account Account_Enabled)) (example_server 1))
            \<lparr>OneTimeAuth = Account_Enabled\<rparr>
            (new_request (example_env 0 (example_account Account_Enabled))
               (example_destination Network_TCP)))
   \<and> result (Dispatch ((example_env 0 (example_account Account_Enabled))
                         \<lparr>ReadTCPResponse := Some ''unexpected EOF''\<rparr>)
               example_client (example_destination Network_TCP)) = Returned None"
proof -
  let ?e = "example_env 0 (example_account Account_Enabled)"
  have a: "chosen (Dispatch ?e example_client (example_destination Network_TCP))
             = Some (example_server 1, 0)"
    by code_simp
  have b: "GetTypedAccount (PickUser ?e (example_server 1))
             = Inr (ShadowsocksAccountPtr \<lparr>OneTimeAuth = Account_Enabled\<rparr>)"
    by (simp add: GetTypedAccount_def example_env_def example_user_def example_account_def)
  have w: "request_written ?e
             (set_user_option ?e (PickUser ?e (example_server 1)) \<lparr>OneTimeAuth = Account_Enabled\<rparr>
                (new_request ?e (example_destination Network_TCP)))"
    by (simp add: request_written_def example_env_def example_destination_def)
  from response_failure_not_returned [OF a b w, of "Some ''unexpected EOF''"]
  have r: "result (Dispatch (?e\<lparr>ReadTCPResponse := Some ''unexpected EOF''\<rparr>)
               example_client (example_destination Network_TCP)) = Returned None"
    by blast
  from a b w r show ?thesis by blast
qed

section \<open>Waiting for the spawned goroutine\<close>

text \<open>
  Claim C7 at a datagram dispatch whose first packet cannot be written: the goroutine
  has been spawned (line 130) when the write fails (line 145), and \<^verbatim>\<open>Dispatch\<close>
  returns the error at line 146 without locking the mutex a second time. The schedule
  that runs the invoking goroutine to its end and the spawned goroutine afterwards is a
  schedule of the run: in it the Output is closed, the Input released and the payload
  released before the spawned goroutine pipes the response to the Output. (When the
  header and the first payload are written without error, in either mode, no schedule
  does that: \<open>written_run_never_races\<close>.)
\<close>

theorem failed_datagram_write_skips_the_wait:
  "result (Dispatch ((example_env 0 (example_account Account_Enabled))
                       \<lparr>UDPWriterWrite := Some ''message too long''\<rparr>)
             example_client (example_destination Network_UDP))
     = Returned (Some ''Shadowsocks|Client: Failed to write payload: message too long'')
   \<and> count_list (fg (Dispatch ((example_env 0 (example_account Account_Enabled))
                                 \<lparr>UDPWriterWrite := Some ''message too long''\<rparr>)
                       example_client (example_destination Network_UDP))) EvMutexLock = 1
   \<and> bg (Dispatch ((example_env 0 (example_account Account_Enabled))
                     \<lparr>UDPWriterWrite := Some ''message too long''\<rparr>)
           example_client (example_destination Network_UDP))
     = Some [EvPipeOutput, EvMutexUnlock]
   \<and> map_option cleanup_races
       (interleave False False
          (fg (Dispatch ((example_env 0 (example_account Account_Enabled))
                           \<lparr>UDPWriterWrite := Some ''message too long''\<rparr>)
                 example_client (example_destination Network_UDP)))
          [EvPipeOutput, EvMutexUnlock]
          (replicate 13 Foreground @ [Background, Background]))
     = Some True"
  by code_simp

end
